theory Spec2Isabelle
  imports Main
begin

section \<open>JavaScript strings\<close>

text \<open>
  A JavaScript string is a sequence of UTF-16 code units. The validator's regular
  expressions carry no \<^verbatim>\<open>u\<close> flag, so every character class, \<^verbatim>\<open>.\<close>, \<^verbatim>\<open>indexOf\<close>
  and \<^verbatim>\<open>slice\<close> work on single code units. A code unit is held as its number.
\<close>

type_synonym jschar = nat
type_synonym jsstring = "jschar list"

text \<open>An ASCII literal of the source, as code units.\<close>

definition js :: "string \<Rightarrow> jsstring" where
  "js s = map of_char s"

text \<open>\<^verbatim>\<open>\n\<close>\<close>

definition LF :: jschar where
  "LF = 10"

text \<open>
  ECMAScript \<^verbatim>\<open>LineTerminator\<close>: LF, CR, U+2028, U+2029. Without the \<^verbatim>\<open>s\<close> flag
  \<^verbatim>\<open>.\<close> matches every code unit but these.
\<close>

definition is_line_terminator :: "jschar \<Rightarrow> bool" where
  "is_line_terminator c \<longleftrightarrow> c = 10 \<or> c = 13 \<or> c = 8232 \<or> c = 8233"

text \<open>
  ECMAScript \<^verbatim>\<open>WhiteSpace\<close> and \<^verbatim>\<open>LineTerminator\<close> together: what \<^verbatim>\<open>\s\<close> matches and
  what \<^verbatim>\<open>String.prototype.trim\<close> strips. TAB, LF, VT, FF, CR, SP, U+00A0, U+1680,
  U+2000..U+200A, U+2028, U+2029, U+202F, U+205F, U+3000, U+FEFF.
\<close>

definition is_space :: "jschar \<Rightarrow> bool" where
  "is_space c \<longleftrightarrow>
     (9 \<le> c \<and> c \<le> 13) \<or> c = 32 \<or> c = 160 \<or> c = 5760 \<or> (8192 \<le> c \<and> c \<le> 8202) \<or>
     c = 8232 \<or> c = 8233 \<or> c = 8239 \<or> c = 8287 \<or> c = 12288 \<or> c = 65279"

text \<open>\<^verbatim>\<open>\w\<close> is \<^verbatim>\<open>[A-Za-z0-9_]\<close>.\<close>

definition is_word :: "jschar \<Rightarrow> bool" where
  "is_word c \<longleftrightarrow> (65 \<le> c \<and> c \<le> 90) \<or> (97 \<le> c \<and> c \<le> 122) \<or> (48 \<le> c \<and> c \<le> 57) \<or> c = 95"

text \<open>\<^verbatim>\<open>[\w-]\<close>\<close>

definition is_word_or_hyphen :: "jschar \<Rightarrow> bool" where
  "is_word_or_hyphen c \<longleftrightarrow> is_word c \<or> c = 45"

text \<open>\<^verbatim>\<open>.\<close>\<close>

definition is_dot :: "jschar \<Rightarrow> bool" where
  "is_dot c \<longleftrightarrow> \<not> is_line_terminator c"

text \<open>\<^verbatim>\<open>[a-z0-9]\<close>\<close>

definition is_lower_or_digit :: "jschar \<Rightarrow> bool" where
  "is_lower_or_digit c \<longleftrightarrow> (97 \<le> c \<and> c \<le> 122) \<or> (48 \<le> c \<and> c \<le> 57)"

text \<open>\<^verbatim>\<open>[a-z0-9.-]\<close>\<close>

definition is_lower_digit_dot_hyphen :: "jschar \<Rightarrow> bool" where
  "is_lower_digit_dot_hyphen c \<longleftrightarrow> is_lower_or_digit c \<or> c = 46 \<or> c = 45"

text \<open>\<^verbatim>\<open>String.prototype.trim\<close>\<close>

definition trim :: "jsstring \<Rightarrow> jsstring" where
  "trim s = rev (dropWhile is_space (rev (dropWhile is_space s)))"

text \<open>\<^verbatim>\<open>String.prototype.startsWith\<close> and \<^verbatim>\<open>endsWith\<close>, at the default position.\<close>

definition startsWith :: "jsstring \<Rightarrow> jsstring \<Rightarrow> bool" where
  "startsWith s p \<longleftrightarrow> take (length p) s = p"

definition endsWith :: "jsstring \<Rightarrow> jsstring \<Rightarrow> bool" where
  "endsWith s p \<longleftrightarrow> length p \<le> length s \<and> drop (length s - length p) s = p"

text \<open>
  \<^verbatim>\<open>s.indexOf(p, from)\<close>: the smallest index \<open>k\<close> with \<open>from \<le> k\<close> and
  \<open>k + length p \<le> length s\<close> at which \<open>p\<close> occurs; \<open>None\<close> is the source's \<open>-1\<close>.
\<close>

definition indexOf :: "jsstring \<Rightarrow> jsstring \<Rightarrow> nat \<Rightarrow> nat option" where
  "indexOf s p from =
     find (\<lambda>k. take (length p) (drop k s) = p) [min from (length s) ..< Suc (length s) - length p]"

text \<open>\<^verbatim>\<open>s.slice(a, b)\<close> for \<open>0 \<le> a\<close> and \<open>0 \<le> b\<close>.\<close>

definition slice :: "jsstring \<Rightarrow> nat \<Rightarrow> nat \<Rightarrow> jsstring" where
  "slice s a b = take (b - a) (drop a s)"

text \<open>\<^verbatim>\<open>s.split("\n")\<close>: the pieces between line feeds; the empty string gives one empty piece.\<close>

fun split_lf :: "jsstring \<Rightarrow> jsstring list" where
  "split_lf [] = [[]]"
| "split_lf (c # cs) =
     (if c = 10 then [] # split_lf cs
      else (case split_lf cs of [] \<Rightarrow> [[c]] | l # ls \<Rightarrow> (c # l) # ls))"

text \<open>\<^verbatim>\<open>content.replace(/\r\n/g, "\n")\<close>\<close>

fun replace_crlf :: "jsstring \<Rightarrow> jsstring" where
  "replace_crlf [] = []"
| "replace_crlf [c] = [c]"
| "replace_crlf (c # d # cs) =
     (if c = 13 \<and> d = 10 then 10 # replace_crlf cs else c # replace_crlf (d # cs))"

text \<open>The decimal rendering of a length, as a template literal prints it.\<close>

fun decimal :: "nat \<Rightarrow> jsstring" where
  "decimal n = (if n < 10 then [48 + n] else decimal (n div 10) @ [48 + n mod 10])"

declare decimal.simps [simp del]

section \<open>Regular expressions\<close>

text \<open>
  The fragment of ECMAScript regular expressions the validator uses: one code unit of a
  class, a greedy \<^verbatim>\<open>*\<close> or \<^verbatim>\<open>+\<close> over a class, concatenation, a greedy optional
  non-capturing group and a capturing group. \<open>rx_run\<close> lists, in the order in which the
  backtracking matcher tries them, the ways a pattern can match a prefix of the input:
  the groups captured (in the order of their opening parentheses) and the input left.
\<close>

datatype rx =
    One "jschar \<Rightarrow> bool"
  | Star "jschar \<Rightarrow> bool"
  | Plus "jschar \<Rightarrow> bool"
  | Cat rx rx
  | Opt rx
  | Group rx

fun rx_run :: "rx \<Rightarrow> jsstring \<Rightarrow> (jsstring list \<times> jsstring) list" where
  "rx_run (One p) s = (case s of [] \<Rightarrow> [] | c # cs \<Rightarrow> if p c then [([], cs)] else [])"
| "rx_run (Star p) s = map (\<lambda>k. ([], drop k s)) (rev [0 ..< Suc (length (takeWhile p s))])"
| "rx_run (Plus p) s = map (\<lambda>k. ([], drop k s)) (rev [1 ..< Suc (length (takeWhile p s))])"
| "rx_run (Cat a b) s =
     concat (map (\<lambda>(ga, s'). map (\<lambda>(gb, s''). (ga @ gb, s'')) (rx_run b s')) (rx_run a s))"
| "rx_run (Opt a) s = rx_run a s @ [([], s)]"
| "rx_run (Group a) s =
     map (\<lambda>(g, s'). (take (length s - length s') s # g, s')) (rx_run a s)"

text \<open>
  \<^verbatim>\<open>/^...$/\<close> without flags: the match starts at index 0 and must use the whole input.
  \<open>rx_exec\<close> is \<^verbatim>\<open>RegExp.prototype.exec\<close> (and \<^verbatim>\<open>String.prototype.match\<close>) giving the
  captured groups of the first way that does, \<open>None\<close> for \<^verbatim>\<open>null\<close>; \<open>rx_test\<close> is
  \<^verbatim>\<open>RegExp.prototype.test\<close>.
\<close>

definition rx_exec :: "rx \<Rightarrow> jsstring \<Rightarrow> jsstring list option" where
  "rx_exec r s = map_option fst (find (\<lambda>(g, rest). rest = []) (rx_run r s))"

definition rx_test :: "rx \<Rightarrow> jsstring \<Rightarrow> bool" where
  "rx_test r s \<longleftrightarrow> rx_exec r s \<noteq> None"

text \<open>\<^verbatim>\<open>/^(\w[\w-]*):\s*(.+)$/\<close>\<close>

definition fieldPattern :: rx where
  "fieldPattern =
     Cat (Group (Cat (One is_word) (Star is_word_or_hyphen)))
       (Cat (One (\<lambda>c. c = 58)) (Cat (Star is_space) (Group (Plus is_dot))))"

text \<open>\<^verbatim>\<open>/^[a-z0-9](?:[a-z0-9.-]*[a-z0-9])?$/\<close>\<close>

definition namePattern :: rx where
  "namePattern =
     Cat (One is_lower_or_digit)
       (Opt (Cat (Star is_lower_digit_dot_hyphen) (One is_lower_or_digit)))"

section \<open>Frontmatter extraction\<close>

text \<open>
  The object \<^verbatim>\<open>fields\<close> starts as \<^verbatim>\<open>{}\<close> and is held as the map of its own properties.
  \<^verbatim>\<open>fields[k] = v\<close> creates or overwrites the own property \<open>k\<close>, except for
  \<^verbatim>\<open>__proto__\<close>: that name is an accessor of \<^verbatim>\<open>Object.prototype\<close>, whose setter ignores
  a string, so the assignment leaves the object as it was.
\<close>

type_synonym fields = "jsstring \<rightharpoonup> jsstring"

definition assign_field :: "fields \<Rightarrow> jsstring \<Rightarrow> jsstring \<Rightarrow> fields" where
  "assign_field fs k v = (if k = js ''__proto__'' then fs else fs(k \<mapsto> v))"

text \<open>One turn of the loop over the lines of the block.\<close>

definition parse_line :: "fields \<Rightarrow> jsstring \<Rightarrow> fields" where
  "parse_line fs line =
     (case rx_exec fieldPattern line of
        Some [k, v] \<Rightarrow> assign_field fs k (trim v)
      | _ \<Rightarrow> fs)"

definition parseFrontmatter :: "jsstring \<Rightarrow> fields option" where
  "parseFrontmatter content =
     (let normalized = replace_crlf content in
      if \<not> startsWith normalized (js ''---'' @ [LF]) then None
      else (case indexOf normalized ([LF] @ js ''---'' @ [LF]) 4 of
              None \<Rightarrow> None
            | Some closing \<Rightarrow>
                Some (foldl parse_line Map.empty (split_lf (slice normalized 4 closing)))))"

section \<open>JSON values and the conversions applied to them\<close>

text \<open>
  What \<^verbatim>\<open>JSON.parse\<close> returns. A number is held as the decimal rendering that
  \<^verbatim>\<open>Number.prototype.toString\<close> gives it (\<^verbatim>\<open>12\<close>, \<^verbatim>\<open>1.5\<close>, \<^verbatim>\<open>1e+21\<close>, \<^verbatim>\<open>Infinity\<close>): the
  validator only renders a number or tests it for zero, and both zeros render as \<^verbatim>\<open>0\<close>.
  An object is held as the list of its own properties, a key's first entry being its
  value. \<^verbatim>\<open>undefined\<close>, the value of a property that is absent, is \<open>None\<close>.
\<close>

datatype json =
    JNull
  | JBool bool
  | JNum jsstring
  | JStr jsstring
  | JArr "json list"
  | JObj "(jsstring \<times> json) list"

text \<open>
  \<^verbatim>\<open>pluginJson[field]\<close> for the six names the validator asks for (\<^verbatim>\<open>name\<close>,
  \<^verbatim>\<open>description\<close>, \<^verbatim>\<open>version\<close>, \<^verbatim>\<open>author\<close>, \<^verbatim>\<open>license\<close>, \<^verbatim>\<open>logo\<close>). None of them is a
  property of a prototype, so the value is an own property of an object and
  \<^verbatim>\<open>undefined\<close> on every other value. The receiver is never \<^verbatim>\<open>null\<close>: the validator has
  returned by then.
\<close>

fun js_get :: "json \<Rightarrow> jsstring \<Rightarrow> json option" where
  "js_get (JObj kvs) k = map_of kvs k"
| "js_get _ k = None"

text \<open>\<^verbatim>\<open>ToBoolean\<close>, the test behind \<^verbatim>\<open>!x\<close> and \<^verbatim>\<open>x && y\<close>.\<close>

fun ToBoolean :: "json option \<Rightarrow> bool" where
  "ToBoolean None = False"
| "ToBoolean (Some JNull) = False"
| "ToBoolean (Some (JBool b)) = b"
| "ToBoolean (Some (JNum r)) = (r \<noteq> js ''0'' \<and> r \<noteq> js ''NaN'')"
| "ToBoolean (Some (JStr s)) = (s \<noteq> [])"
| "ToBoolean (Some (JArr xs)) = True"
| "ToBoolean (Some (JObj kvs)) = True"

text \<open>What the run can throw: a \<^verbatim>\<open>TypeError\<close> of the language, or a failed filesystem call.\<close>

datatype thrown = TypeError | FsError

text \<open>
  \<^verbatim>\<open>ToString\<close>, applied by a template literal and by \<^verbatim>\<open>RegExp.prototype.test\<close> to its
  argument. An array joins its elements with commas, \<^verbatim>\<open>null\<close> elements as the empty
  string. An object is \<^verbatim>\<open>[object Object]\<close> through \<^verbatim>\<open>Object.prototype.toString\<close>, unless
  it has an own property \<^verbatim>\<open>toString\<close>: a JSON value is never callable, and
  \<^verbatim>\<open>valueOf\<close> returns no primitive, so the conversion throws.
\<close>

fun ToString_json :: "json \<Rightarrow> thrown + jsstring"
  and join_elements :: "json list \<Rightarrow> thrown + jsstring" where
  "ToString_json JNull = Inr (js ''null'')"
| "ToString_json (JBool b) = Inr (if b then js ''true'' else js ''false'')"
| "ToString_json (JNum r) = Inr r"
| "ToString_json (JStr s) = Inr s"
| "ToString_json (JArr xs) = join_elements xs"
| "ToString_json (JObj kvs) =
     (if map_of kvs (js ''toString'') \<noteq> None then Inl TypeError
      else Inr (js ''[object Object]''))"
| "join_elements [] = Inr []"
| "join_elements (x # xs) =
     (case (if x = JNull then Inr [] else ToString_json x) of
        Inl e \<Rightarrow> Inl e
      | Inr s \<Rightarrow>
          (if xs = [] then Inr s
           else (case join_elements xs of Inl e \<Rightarrow> Inl e | Inr t \<Rightarrow> Inr (s @ [44] @ t))))"

definition ToString :: "json option \<Rightarrow> thrown + jsstring" where
  "ToString v = (case v of None \<Rightarrow> Inr (js ''undefined'') | Some j \<Rightarrow> ToString_json j)"

section \<open>The bundle on disk\<close>

text \<open>
  A path is the list of the arguments given to \<^verbatim>\<open>path.join\<close> after \<^verbatim>\<open>root\<close>; a filesystem
  tells what the process finds there. \<open>Unreadable\<close> is anything that exists and can
  be read neither as a file nor as a directory.
\<close>

type_synonym path = "jsstring list"

datatype fsnode = File jsstring | Dir "jsstring list" | Unreadable

type_synonym filesystem = "path \<Rightarrow> fsnode option"

text \<open>The calls the run makes to \<^verbatim>\<open>node:fs\<close>, in order.\<close>

datatype fscall = Access path | ReadFile path | Readdir path

text \<open>
  The two module-level accumulators, the lines given to \<^verbatim>\<open>console.log\<close> and the
  filesystem calls made so far.
\<close>

record vstate =
  errors :: "jsstring list"
  warnings :: "jsstring list"
  printed :: "jsstring list"
  fscalls :: "fscall list"

definition initial :: vstate where
  "initial = \<lparr>errors = [], warnings = [], printed = [], fscalls = []\<rparr>"

definition error :: "jsstring \<Rightarrow> vstate \<Rightarrow> vstate" where
  "error msg st = st\<lparr>errors := errors st @ [msg]\<rparr>"

definition warn :: "jsstring \<Rightarrow> vstate \<Rightarrow> vstate" where
  "warn msg st = st\<lparr>warnings := warnings st @ [msg]\<rparr>"

definition console_log :: "jsstring \<Rightarrow> vstate \<Rightarrow> vstate" where
  "console_log line st = st\<lparr>printed := printed st @ [line]\<rparr>"

definition calls :: "fscall \<Rightarrow> vstate \<Rightarrow> vstate" where
  "calls c st = st\<lparr>fscalls := fscalls st @ [c]\<rparr>"

text \<open>\<^verbatim>\<open>exists\<close>: \<^verbatim>\<open>fs.access\<close> with every failure caught.\<close>

definition exists :: "filesystem \<Rightarrow> path \<Rightarrow> bool" where
  "exists b p \<longleftrightarrow> b p \<noteq> None"

text \<open>\<^verbatim>\<open>fs.readFile(p, "utf8")\<close> and \<^verbatim>\<open>fs.readdir(p)\<close>; \<open>Inl\<close> is a rejected promise.\<close>

definition readFile :: "filesystem \<Rightarrow> path \<Rightarrow> thrown + jsstring" where
  "readFile b p = (case b p of Some (File content) \<Rightarrow> Inr content | _ \<Rightarrow> Inl FsError)"

definition readdir :: "filesystem \<Rightarrow> path \<Rightarrow> thrown + jsstring list" where
  "readdir b p = (case b p of Some (Dir names) \<Rightarrow> Inr names | _ \<Rightarrow> Inl FsError)"

text \<open>
  \<^verbatim>\<open>readJson\<close>. \<^verbatim>\<open>JSON.parse\<close> is the runtime's and is a parameter: \<open>None\<close> when it
  throws. Either failure is caught and gives \<^verbatim>\<open>null\<close>.
\<close>

definition readJson :: "(jsstring \<Rightarrow> json option) \<Rightarrow> filesystem \<Rightarrow> path \<Rightarrow> json" where
  "readJson parse b filePath =
     (case readFile b filePath of
        Inl e \<Rightarrow> JNull
      | Inr raw \<Rightarrow> (case parse raw of None \<Rightarrow> JNull | Some v \<Rightarrow> v))"

section \<open>The validator\<close>

text \<open>
  A stretch of \<^verbatim>\<open>validatePlugin\<close> takes the state and gives the state it leaves,
  with what it threw if it did not reach its end.
\<close>

type_synonym step = "vstate \<Rightarrow> thrown option \<times> vstate"

definition then_do :: "step \<Rightarrow> step \<Rightarrow> step" where
  "then_do f g st = (case f st of (Some e, st') \<Rightarrow> (Some e, st') | (None, st') \<Rightarrow> g st')"

text \<open>\<^verbatim>\<open>for (const x of xs) body\<close>\<close>

fun for_of :: "('a \<Rightarrow> step) \<Rightarrow> 'a list \<Rightarrow> step" where
  "for_of body [] st = (None, st)"
| "for_of body (x # xs) st =
     (case body x st of (Some e, st') \<Rightarrow> (Some e, st') | (None, st') \<Rightarrow> for_of body xs st')"

text \<open>\<^verbatim>\<open>!fm.name\<close> on the object \<^verbatim>\<open>parseFrontmatter\<close> returned: absent or the empty string.\<close>

definition field_truthy :: "fields \<Rightarrow> jsstring \<Rightarrow> bool" where
  "field_truthy fm k = (case fm k of None \<Rightarrow> False | Some v \<Rightarrow> v \<noteq> [])"

text \<open>Lines 58 to 61: the name against \<^verbatim>\<open>namePattern\<close>.\<close>

definition check_name :: "json \<Rightarrow> step" where
  "check_name pluginJson st =
     (case ToString (js_get pluginJson (js ''name'')) of
        Inl e \<Rightarrow> (Some e, st)
      | Inr name \<Rightarrow>
          (None,
           if \<not> rx_test namePattern name
           then error (js ''plugin.json name \"'' @ name @ js ''\" doesn't match pattern'') st
           else st))"

text \<open>Lines 63 to 67: the required fields.\<close>

definition required_fields :: "jsstring list" where
  "required_fields =
     [js ''name'', js ''description'', js ''version'', js ''author'', js ''license'']"

definition check_field :: "json \<Rightarrow> jsstring \<Rightarrow> step" where
  "check_field pluginJson field st =
     (None,
      if \<not> ToBoolean (js_get pluginJson field)
      then error (js ''plugin.json missing required field: '' @ field) st
      else st)"

definition check_fields :: "json \<Rightarrow> step" where
  "check_fields pluginJson = for_of (check_field pluginJson) required_fields"

text \<open>Line 69.\<close>

definition print_name :: "json \<Rightarrow> step" where
  "print_name pluginJson st =
     (case ToString (js_get pluginJson (js ''name'')) of
        Inl e \<Rightarrow> (Some e, st)
      | Inr name \<Rightarrow> (None, console_log (js ''Validating plugin: '' @ name @ [LF]) st))"

text \<open>
  Lines 71 to 73: the logo. \<^verbatim>\<open>path.join\<close> throws a \<^verbatim>\<open>TypeError\<close> on an argument
  that is not a string.
\<close>

definition check_logo :: "filesystem \<Rightarrow> json \<Rightarrow> step" where
  "check_logo b pluginJson st =
     (if \<not> ToBoolean (js_get pluginJson (js ''logo'')) then (None, st)
      else (case js_get pluginJson (js ''logo'') of
              Some (JStr logo) \<Rightarrow>
                (let st1 = calls (Access [logo]) st in
                 (None,
                  if \<not> exists b [logo] then warn (js ''Logo file not found: '' @ logo) st1
                  else st1))
            | _ \<Rightarrow> (Some TypeError, st)))"

text \<open>Lines 75 to 96: the skills.\<close>

definition check_skill_frontmatter :: "jsstring \<Rightarrow> fields option \<Rightarrow> vstate \<Rightarrow> vstate" where
  "check_skill_frontmatter skill fm st =
     (case fm of
        None \<Rightarrow> error (js ''Skill '' @ skill @ js ''/SKILL.md is missing frontmatter'') st
      | Some f \<Rightarrow>
          (let st1 = (if \<not> field_truthy f (js ''name'')
                      then error (js ''Skill '' @ skill @ js ''/SKILL.md missing name in frontmatter'') st
                      else st)
           in if \<not> field_truthy f (js ''description'')
              then error (js ''Skill '' @ skill @ js ''/SKILL.md missing description in frontmatter'') st1
              else st1))"

definition check_skill :: "filesystem \<Rightarrow> jsstring \<Rightarrow> step" where
  "check_skill b skill st =
     (let skillPath = [js ''skills'', skill, js ''SKILL.md''];
          st1 = calls (Access skillPath) st
      in if \<not> exists b skillPath
         then (None, error (js ''Skill '' @ skill @ js '' is missing SKILL.md'') st1)
         else (let st2 = calls (ReadFile skillPath) st1
               in case readFile b skillPath of
                    Inl e \<Rightarrow> (Some e, st2)
                  | Inr content \<Rightarrow>
                      (None, check_skill_frontmatter skill (parseFrontmatter content) st2)))"

definition check_skills :: "filesystem \<Rightarrow> step" where
  "check_skills b st =
     (let skillsDir = [js ''skills''];
          st1 = calls (Access skillsDir) st
      in if exists b skillsDir
         then (let st2 = calls (Readdir skillsDir) st1
               in case readdir b skillsDir of
                    Inl e \<Rightarrow> (Some e, st2)
                  | Inr skills \<Rightarrow>
                      then_do (for_of (check_skill b) skills)
                        (\<lambda>st3. (None,
                           console_log (js ''  Skills: '' @ decimal (length skills) @ js '' found'') st3))
                        st2)
         else (None, error (js ''skills/ directory is missing'') st1))"

text \<open>Lines 98 to 111: the rules.\<close>

definition check_rule_frontmatter :: "jsstring \<Rightarrow> fields option \<Rightarrow> vstate \<Rightarrow> vstate" where
  "check_rule_frontmatter rule fm st =
     (if (case fm of None \<Rightarrow> True | Some f \<Rightarrow> \<not> field_truthy f (js ''description''))
      then error (js ''Rule '' @ rule @ js '' missing description in frontmatter'') st
      else st)"

definition check_rule :: "filesystem \<Rightarrow> jsstring \<Rightarrow> step" where
  "check_rule b rule st =
     (let st1 = calls (ReadFile [js ''rules'', rule]) st
      in case readFile b [js ''rules'', rule] of
           Inl e \<Rightarrow> (Some e, st1)
         | Inr content \<Rightarrow> (None, check_rule_frontmatter rule (parseFrontmatter content) st1))"

definition check_rules :: "filesystem \<Rightarrow> step" where
  "check_rules b st =
     (let rulesDir = [js ''rules''];
          st1 = calls (Access rulesDir) st
      in if exists b rulesDir
         then (let st2 = calls (Readdir rulesDir) st1
               in case readdir b rulesDir of
                    Inl e \<Rightarrow> (Some e, st2)
                  | Inr names \<Rightarrow>
                      (let rules = filter (\<lambda>f. endsWith f (js ''.mdc'') \<or> endsWith f (js ''.md'')) names
                       in then_do (for_of (check_rule b) rules)
                            (\<lambda>st3. (None,
                               console_log (js ''  Rules: '' @ decimal (length rules) @ js '' found'') st3))
                            st2))
         else (None, st1))"

text \<open>Lines 113 to 127: the commands.\<close>

definition check_command_frontmatter :: "jsstring \<Rightarrow> fields option \<Rightarrow> vstate \<Rightarrow> vstate" where
  "check_command_frontmatter cmd fm st =
     (case fm of
        None \<Rightarrow> error (js ''Command '' @ cmd @ js '' missing frontmatter'') st
      | Some f \<Rightarrow>
          (let st1 = (if \<not> field_truthy f (js ''name'')
                      then error (js ''Command '' @ cmd @ js '' missing name in frontmatter'') st
                      else st)
           in if \<not> field_truthy f (js ''description'')
              then error (js ''Command '' @ cmd @ js '' missing description in frontmatter'') st1
              else st1))"

definition check_command :: "filesystem \<Rightarrow> jsstring \<Rightarrow> step" where
  "check_command b cmd st =
     (let st1 = calls (ReadFile [js ''commands'', cmd]) st
      in case readFile b [js ''commands'', cmd] of
           Inl e \<Rightarrow> (Some e, st1)
         | Inr content \<Rightarrow> (None, check_command_frontmatter cmd (parseFrontmatter content) st1))"

definition check_commands :: "filesystem \<Rightarrow> step" where
  "check_commands b st =
     (let commandsDir = [js ''commands''];
          st1 = calls (Access commandsDir) st
      in if exists b commandsDir
         then (let st2 = calls (Readdir commandsDir) st1
               in case readdir b commandsDir of
                    Inl e \<Rightarrow> (Some e, st2)
                  | Inr names \<Rightarrow>
                      (let commands = filter (\<lambda>f. endsWith f (js ''.md'')) names
                       in then_do (for_of (check_command b) commands)
                            (\<lambda>st3. (None,
                               console_log (js ''  Commands: '' @ decimal (length commands) @ js '' found'') st3))
                            st2))
         else (None, st1))"

text \<open>Lines 129 to 143: the agents.\<close>

definition check_agent_frontmatter :: "jsstring \<Rightarrow> fields option \<Rightarrow> vstate \<Rightarrow> vstate" where
  "check_agent_frontmatter agent fm st =
     (case fm of
        None \<Rightarrow> error (js ''Agent '' @ agent @ js '' missing frontmatter'') st
      | Some f \<Rightarrow>
          (let st1 = (if \<not> field_truthy f (js ''name'')
                      then error (js ''Agent '' @ agent @ js '' missing name in frontmatter'') st
                      else st)
           in if \<not> field_truthy f (js ''description'')
              then error (js ''Agent '' @ agent @ js '' missing description in frontmatter'') st1
              else st1))"

definition check_agent :: "filesystem \<Rightarrow> jsstring \<Rightarrow> step" where
  "check_agent b agent st =
     (let st1 = calls (ReadFile [js ''agents'', agent]) st
      in case readFile b [js ''agents'', agent] of
           Inl e \<Rightarrow> (Some e, st1)
         | Inr content \<Rightarrow> (None, check_agent_frontmatter agent (parseFrontmatter content) st1))"

definition check_agents :: "filesystem \<Rightarrow> step" where
  "check_agents b st =
     (let agentsDir = [js ''agents''];
          st1 = calls (Access agentsDir) st
      in if exists b agentsDir
         then (let st2 = calls (Readdir agentsDir) st1
               in case readdir b agentsDir of
                    Inl e \<Rightarrow> (Some e, st2)
                  | Inr names \<Rightarrow>
                      (let agents = filter (\<lambda>f. endsWith f (js ''.md'')) names
                       in then_do (for_of (check_agent b) agents)
                            (\<lambda>st3. (None,
                               console_log (js ''  Agents: '' @ decimal (length agents) @ js '' found'') st3))
                            st2))
         else (None, st1))"

text \<open>
  How a call of \<^verbatim>\<open>validatePlugin\<close> ends: its promise resolves, \<^verbatim>\<open>process.exit\<close>
  ends the process, or its promise rejects.
\<close>

datatype outcome = Returned | Exited nat | Threw thrown

text \<open>
  Lines 145 to 160: the report. U+26A0, U+2717 and U+2713 are the marks of the three
  kinds of line.
\<close>

definition report :: "vstate \<Rightarrow> outcome \<times> vstate" where
  "report st =
     (let st1 = console_log [] st;
          st2 = (if warnings st1 \<noteq> []
                 then console_log []
                        (foldl (\<lambda>s w. console_log (js ''  '' @ [9888] @ js '' '' @ w) s)
                           (console_log (js ''Warnings ('' @ decimal (length (warnings st1)) @ js ''):'') st1)
                           (warnings st1))
                 else st1)
      in if errors st2 \<noteq> []
         then (Exited 1,
               console_log []
                 (foldl (\<lambda>s e. console_log (js ''  '' @ [10007] @ js '' '' @ e) s)
                    (console_log (js ''Errors ('' @ decimal (length (errors st2)) @ js ''):'') st2)
                    (errors st2)))
         else (Returned, console_log ([10003] @ js '' Plugin validation passed'') st2))"

text \<open>Lines 98 to 143 and lines 75 to 143: the directories, in the order of the source.\<close>

definition after_skills :: "filesystem \<Rightarrow> step" where
  "after_skills b = then_do (check_rules b) (then_do (check_commands b) (check_agents b))"

definition directories :: "filesystem \<Rightarrow> step" where
  "directories b = then_do (check_skills b) (after_skills b)"

text \<open>Lines 57 to 143, once the manifest is there.\<close>

definition checks :: "filesystem \<Rightarrow> json \<Rightarrow> step" where
  "checks b pluginJson =
     then_do (check_name pluginJson)
       (then_do (check_fields pluginJson)
          (then_do (print_name pluginJson)
             (then_do (check_logo b pluginJson) (directories b))))"

definition manifestPath :: path where
  "manifestPath = [js ''.cursor-plugin'', js ''plugin.json'']"

definition validatePlugin :: "(jsstring \<Rightarrow> json option) \<Rightarrow> filesystem \<Rightarrow> vstate \<Rightarrow> outcome \<times> vstate" where
  "validatePlugin parse b st =
     (let st1 = calls (ReadFile manifestPath) st;
          pluginJson = readJson parse b manifestPath
      in if \<not> ToBoolean (Some pluginJson)
         then (Returned, error (js ''.cursor-plugin/plugin.json is missing or invalid'') st1)
         else (case checks b pluginJson st1 of
                 (Some e, st') \<Rightarrow> (Threw e, st')
               | (None, st') \<Rightarrow> report st'))"

text \<open>
  Lines 163 to 166, and the end of the process. A rejected promise is caught and the
  handler calls \<^verbatim>\<open>process.exit(1)\<close>; a process that is left to end on its own, with
  nothing having set an exit code, ends with code 0.
\<close>

definition exit_code :: "outcome \<Rightarrow> nat" where
  "exit_code oc = (case oc of Returned \<Rightarrow> 0 | Exited n \<Rightarrow> n | Threw e \<Rightarrow> 1)"

text \<open>One run of the script: the accumulators start empty.\<close>

definition run :: "(jsstring \<Rightarrow> json option) \<Rightarrow> filesystem \<Rightarrow> outcome \<times> vstate" where
  "run parse b = validatePlugin parse b initial"

section \<open>What a stretch of the run adds\<close>

text \<open>
  The accumulators, the output and the list of calls only grow. \<open>plus_state st d\<close> is
  \<open>st\<close> with the four lists of \<open>d\<close> appended, and a step \<open>appends\<close> when its
  result and what it adds are the same from every state; \<open>P\<close> and \<open>W\<close> bound the
  errors and the warnings it may add.
\<close>

definition plus_state :: "vstate \<Rightarrow> vstate \<Rightarrow> vstate" where
  "plus_state st d =
     \<lparr>errors = errors st @ errors d, warnings = warnings st @ warnings d,
      printed = printed st @ printed d, fscalls = fscalls st @ fscalls d\<rparr>"

definition appends :: "(jsstring \<Rightarrow> bool) \<Rightarrow> (jsstring \<Rightarrow> bool) \<Rightarrow> step \<Rightarrow> bool" where
  "appends P W f \<longleftrightarrow>
     (\<forall>st. f st = (fst (f initial), plus_state st (snd (f initial)))) \<and>
     list_all P (errors (snd (f initial))) \<and> list_all W (warnings (snd (f initial)))"

text \<open>The errors of the manifest checks all start with \<^verbatim>\<open>plugin.json\<close> and a space.\<close>

definition about_manifest :: "jsstring \<Rightarrow> bool" where
  "about_manifest msg \<longleftrightarrow> startsWith msg (js ''plugin.json '')"

text \<open>The error of the name check starts with \<^verbatim>\<open>plugin.json name\<close> and a space.\<close>

definition about_name :: "jsstring \<Rightarrow> bool" where
  "about_name msg \<longleftrightarrow> startsWith msg (js ''plugin.json name '')"

section \<open>Plugin directories to run the validator on\<close>

text \<open>A \<^verbatim>\<open>JSON.parse\<close> that knows one text, and a directory given by its entries.\<close>

definition only :: "jsstring \<Rightarrow> json \<Rightarrow> jsstring \<Rightarrow> json option" where
  "only text v raw = (if raw = text then Some v else None)"

definition disk :: "(path \<times> fsnode) list \<Rightarrow> filesystem" where
  "disk entries = map_of entries"

text \<open>A manifest with the five required fields, as text and as the value parsed from it.\<close>

definition conformant_text :: jsstring where
  "conformant_text =
     js ''{\"name\":\"my-plugin\",\"description\":\"TypeScript rules\",\"version\":\"1.0.0\",\"author\":\"me\",\"license\":\"MIT\"}''"

definition conformant :: json where
  "conformant =
     JObj [(js ''name'', JStr (js ''my-plugin'')),
           (js ''description'', JStr (js ''TypeScript rules'')),
           (js ''version'', JStr (js ''1.0.0'')),
           (js ''author'', JStr (js ''me'')),
           (js ''license'', JStr (js ''MIT''))]"

text \<open>The same with \<^verbatim>\<open>"logo":5\<close> added, and with \<^verbatim>\<open>"logo":"logo.png"\<close> added.\<close>

definition logo5_text :: jsstring where
  "logo5_text =
     js ''{\"name\":\"my-plugin\",\"description\":\"TypeScript rules\",\"version\":\"1.0.0\",\"author\":\"me\",\"license\":\"MIT\",\"logo\":5}''"

definition logo5 :: json where
  "logo5 =
     JObj [(js ''name'', JStr (js ''my-plugin'')),
           (js ''description'', JStr (js ''TypeScript rules'')),
           (js ''version'', JStr (js ''1.0.0'')),
           (js ''author'', JStr (js ''me'')),
           (js ''license'', JStr (js ''MIT'')),
           (js ''logo'', JNum (js ''5''))]"

definition with_logo_text :: jsstring where
  "with_logo_text =
     js ''{\"name\":\"my-plugin\",\"description\":\"TypeScript rules\",\"version\":\"1.0.0\",\"author\":\"me\",\"license\":\"MIT\",\"logo\":\"logo.png\"}''"

definition with_logo :: json where
  "with_logo =
     JObj [(js ''name'', JStr (js ''my-plugin'')),
           (js ''description'', JStr (js ''TypeScript rules'')),
           (js ''version'', JStr (js ''1.0.0'')),
           (js ''author'', JStr (js ''me'')),
           (js ''license'', JStr (js ''MIT'')),
           (js ''logo'', JStr (js ''logo.png''))]"







text \<open>
  Documents: the head of the repository's \<^verbatim>\<open>commands/audit.md\<close>; one whose name is
  blank; one with nothing between the delimiters; one whose closing delimiter ends the
  text; one whose only field is \<^verbatim>\<open>__proto__\<close>; one whose only field is
  \<^verbatim>\<open>constructor\<close>; and one with no frontmatter.
\<close>

definition audit_doc :: jsstring where
  "audit_doc =
     js ''---'' @ [LF] @ js ''name: audit'' @ [LF] @
     js ''description: Audit the current codebase for TypeScript best practice violations'' @ [LF] @
     js ''---'' @ [LF] @ [LF] @ js ''Scan the current project.'' @ [LF]"

definition blank_name_doc :: jsstring where
  "blank_name_doc =
     js ''---'' @ [LF] @ js ''name:  '' @ [LF] @ js ''description: Audit'' @ [LF] @
     js ''---'' @ [LF]"

definition empty_block_doc :: jsstring where
  "empty_block_doc = js ''---'' @ [LF] @ js ''---'' @ [LF]"

definition unterminated_doc :: jsstring where
  "unterminated_doc = js ''---'' @ [LF] @ js ''name: x'' @ [LF] @ js ''---''"

definition proto_doc :: jsstring where
  "proto_doc = js ''---'' @ [LF] @ js ''__proto__: x'' @ [LF] @ js ''---'' @ [LF]"

definition constructor_doc :: jsstring where
  "constructor_doc = js ''---'' @ [LF] @ js ''constructor: x'' @ [LF] @ js ''---'' @ [LF]"

definition plain_doc :: jsstring where
  "plain_doc = js ''# Audit'' @ [LF]"

section \<open>Steps only append\<close>

lemma plus_state_initial [simp]: "plus_state initial d = d"
  by (simp add: plus_state_def initial_def)

lemma plus_state_initial_right: "plus_state st initial = st"
  by (simp add: plus_state_def initial_def)

lemma plus_state_assoc: "plus_state (plus_state a b) c = plus_state a (plus_state b c)"
  by (simp add: plus_state_def)

lemma plus_state_sel [simp]:
  "errors (plus_state st d) = errors st @ errors d"
  "warnings (plus_state st d) = warnings st @ warnings d"
  "printed (plus_state st d) = printed st @ printed d"
  "fscalls (plus_state st d) = fscalls st @ fscalls d"
  by (simp_all add: plus_state_def)

lemma initial_sel [simp]:
  "errors initial = []" "warnings initial = []" "printed initial = []" "fscalls initial = []"
  by (simp_all add: initial_def)

lemma appendsI:
  assumes "\<And>st. f st = (r, plus_state st d)"
    and "list_all P (errors d)" and "list_all W (warnings d)"
  shows "appends P W f"
proof -
  have i: "f initial = (r, d)"
    using assms(1) [of initial] by (simp only: plus_state_initial)
  have "f st = (fst (f initial), plus_state st (snd (f initial)))" for st
    unfolding i fst_conv snd_conv by (rule assms)
  then show ?thesis
    unfolding appends_def i snd_conv using assms(2,3) by blast
qed

lemma appendsD:
  "appends P W f \<Longrightarrow> f st = (fst (f initial), plus_state st (snd (f initial)))"
  unfolding appends_def by blast

lemma appends_errors: "appends P W f \<Longrightarrow> list_all P (errors (snd (f initial)))"
  unfolding appends_def by blast

lemma appends_warnings: "appends P W f \<Longrightarrow> list_all W (warnings (snd (f initial)))"
  unfolding appends_def by blast

lemma appends_mono:
  assumes "appends P W f" and "\<And>m. P m \<Longrightarrow> P' m" and "\<And>w. W w \<Longrightarrow> W' w"
  shows "appends P' W' f"
proof (rule appendsI)
  show "f st = (fst (f initial), plus_state st (snd (f initial)))" for st
    by (rule appendsD [OF assms(1)])
  show "list_all P' (errors (snd (f initial)))"
    using appends_errors [OF assms(1)] assms(2) by (auto simp: list_all_iff)
  show "list_all W' (warnings (snd (f initial)))"
    using appends_warnings [OF assms(1)] assms(3) by (auto simp: list_all_iff)
qed

lemma appends_then_do:
  assumes f: "appends P W f" and g: "appends P W g"
  shows "appends P W (then_do f g)"
proof (cases "fst (f initial)")
  case None
  show ?thesis
  proof (rule appendsI)
    fix st
    show "then_do f g st =
        (fst (g initial), plus_state st (plus_state (snd (f initial)) (snd (g initial))))"
      using None appendsD [OF f, of st] appendsD [OF g, of "plus_state st (snd (f initial))"]
      by (simp add: then_do_def plus_state_assoc)
    show "list_all P (errors (plus_state (snd (f initial)) (snd (g initial))))"
      using appends_errors [OF f] appends_errors [OF g] by simp
    show "list_all W (warnings (plus_state (snd (f initial)) (snd (g initial))))"
      using appends_warnings [OF f] appends_warnings [OF g] by simp
  qed
next
  case (Some e)
  show ?thesis
  proof (rule appendsI)
    fix st
    show "then_do f g st = (Some e, plus_state st (snd (f initial)))"
      using Some appendsD [OF f, of st] by (simp add: then_do_def)
    show "list_all P (errors (snd (f initial)))" by (rule appends_errors [OF f])
    show "list_all W (warnings (snd (f initial)))" by (rule appends_warnings [OF f])
  qed
qed

lemma for_of_then_do: "for_of body (x # xs) = then_do (body x) (for_of body xs)"
  by (rule ext) (simp add: then_do_def)

lemma appends_for_of:
  assumes "\<And>x. appends P W (body x)"
  shows "appends P W (for_of body xs)"
proof (induction xs)
  case Nil
  show ?case
    by (rule appendsI [of _ None initial]) (simp_all add: plus_state_initial_right)
next
  case (Cons x xs)
  show ?case
    unfolding for_of_then_do by (rule appends_then_do [OF assms Cons.IH])
qed

text \<open>The four ways a step changes the state, as additions.\<close>

lemma error_plus:
  "error m st = plus_state st \<lparr>errors = [m], warnings = [], printed = [], fscalls = []\<rparr>"
  by (simp add: error_def plus_state_def)

lemma warn_plus:
  "warn m st = plus_state st \<lparr>errors = [], warnings = [m], printed = [], fscalls = []\<rparr>"
  by (simp add: warn_def plus_state_def)

lemma console_log_plus:
  "console_log m st = plus_state st \<lparr>errors = [], warnings = [], printed = [m], fscalls = []\<rparr>"
  by (simp add: console_log_def plus_state_def)

lemma calls_plus:
  "calls c st = plus_state st \<lparr>errors = [], warnings = [], printed = [], fscalls = [c]\<rparr>"
  by (simp add: calls_def plus_state_def)

lemma plus_state_literal:
  "plus_state \<lparr>errors = e, warnings = w, printed = p, fscalls = c\<rparr>
     \<lparr>errors = e', warnings = w', printed = p', fscalls = c'\<rparr> =
   \<lparr>errors = e @ e', warnings = w @ w', printed = p @ p', fscalls = c @ c'\<rparr>"
  by (simp add: plus_state_def)

lemmas as_plus = error_plus warn_plus console_log_plus calls_plus plus_state_assoc plus_state_literal

lemma not_about_manifest [simp]:
  "\<not> about_manifest (js ''Skill '' @ x)"
  "\<not> about_manifest (js ''skills/ directory is missing'')"
  "\<not> about_manifest (js ''Rule '' @ x)"
  "\<not> about_manifest (js ''Command '' @ x)"
  "\<not> about_manifest (js ''Agent '' @ x)"
  by (simp_all add: about_manifest_def startsWith_def js_def)

lemma appends_check_skill: "appends (\<lambda>m. \<not> about_manifest m) (\<lambda>w. False) (check_skill b skill)"
  unfolding appends_def
  by (simp add: check_skill_def check_skill_frontmatter_def Let_def error_def calls_def
      plus_state_def initial_def split: sum.splits option.splits)

lemma appends_check_rule: "appends (\<lambda>m. \<not> about_manifest m) (\<lambda>w. False) (check_rule b rule)"
  unfolding appends_def
  by (simp add: check_rule_def check_rule_frontmatter_def Let_def error_def calls_def
      plus_state_def initial_def split: sum.splits option.splits)

lemma appends_check_command: "appends (\<lambda>m. \<not> about_manifest m) (\<lambda>w. False) (check_command b cmd)"
  unfolding appends_def
  by (simp add: check_command_def check_command_frontmatter_def Let_def error_def calls_def
      plus_state_def initial_def split: sum.splits option.splits)

lemma appends_check_agent: "appends (\<lambda>m. \<not> about_manifest m) (\<lambda>w. False) (check_agent b agent)"
  unfolding appends_def
  by (simp add: check_agent_def check_agent_frontmatter_def Let_def error_def calls_def
      plus_state_def initial_def split: sum.splits option.splits)

lemma appends_return:
  assumes "list_all P (errors d)" and "list_all W (warnings d)"
  shows "appends P W (\<lambda>st. (r, plus_state st d))"
  by (rule appendsI [of _ r d]) (use assms in simp_all)

lemma appends_after:
  assumes "appends P W f" and "list_all P (errors d)" and "list_all W (warnings d)"
  shows "appends P W (\<lambda>st. f (plus_state st d))"
proof (rule appendsI)
  show "f (plus_state st d) = (fst (f initial), plus_state st (plus_state d (snd (f initial))))" for st
    using appendsD [OF assms(1), of "plus_state st d"] by (simp add: plus_state_assoc)
  show "list_all P (errors (plus_state d (snd (f initial))))"
    using assms(2) appends_errors [OF assms(1)] by simp
  show "list_all W (warnings (plus_state d (snd (f initial))))"
    using assms(3) appends_warnings [OF assms(1)] by simp
qed

lemma appends_check_skills: "appends (\<lambda>m. \<not> about_manifest m) (\<lambda>w. False) (check_skills b)"
proof (cases "exists b [js ''skills'']")
  case False
  have "check_skills b = (\<lambda>st. (None, plus_state st
      \<lparr>errors = [js ''skills/ directory is missing''], warnings = [], printed = [],
       fscalls = [Access [js ''skills'']]\<rparr>))"
    using False by (simp add: fun_eq_iff check_skills_def Let_def as_plus)
  then show ?thesis
    by (simp add: appends_return)
next
  case True
  show ?thesis
  proof (cases "readdir b [js ''skills'']")
    case (Inl e)
    have "check_skills b = (\<lambda>st. (Some e, plus_state st
        \<lparr>errors = [], warnings = [], printed = [],
         fscalls = [Access [js ''skills''], Readdir [js ''skills'']]\<rparr>))"
      using True Inl by (simp add: fun_eq_iff check_skills_def Let_def as_plus)
    then show ?thesis
      by (simp add: appends_return)
  next
    case (Inr skills)
    let ?f = "then_do (for_of (check_skill b) skills)
                (\<lambda>st3. (None, plus_state st3
                   \<lparr>errors = [], warnings = [],
                    printed = [js ''  Skills: '' @ decimal (length skills) @ js '' found''],
                    fscalls = []\<rparr>))"
    have "check_skills b = (\<lambda>st. ?f (plus_state st
        \<lparr>errors = [], warnings = [], printed = [],
         fscalls = [Access [js ''skills''], Readdir [js ''skills'']]\<rparr>))"
      using True Inr by (simp add: fun_eq_iff check_skills_def Let_def as_plus)
    moreover have "appends (\<lambda>m. \<not> about_manifest m) (\<lambda>w. False) ?f"
      by (intro appends_then_do appends_for_of appends_check_skill appends_return) simp_all
    ultimately show ?thesis
      by (simp add: appends_after)
  qed
qed

lemma appends_check_rules: "appends (\<lambda>m. \<not> about_manifest m) (\<lambda>w. False) (check_rules b)"
proof (cases "exists b [js ''rules'']")
  case False
  have "check_rules b = (\<lambda>st. (None, plus_state st
      \<lparr>errors = [], warnings = [], printed = [], fscalls = [Access [js ''rules'']]\<rparr>))"
    using False by (simp add: fun_eq_iff check_rules_def Let_def as_plus)
  then show ?thesis
    by (simp add: appends_return)
next
  case True
  show ?thesis
  proof (cases "readdir b [js ''rules'']")
    case (Inl e)
    have "check_rules b = (\<lambda>st. (Some e, plus_state st
        \<lparr>errors = [], warnings = [], printed = [],
         fscalls = [Access [js ''rules''], Readdir [js ''rules'']]\<rparr>))"
      using True Inl by (simp add: fun_eq_iff check_rules_def Let_def as_plus)
    then show ?thesis
      by (simp add: appends_return)
  next
    case (Inr names)
    define rules where "rules = filter (\<lambda>f. endsWith f (js ''.mdc'') \<or> endsWith f (js ''.md'')) names"
    let ?f = "then_do (for_of (check_rule b) rules)
                (\<lambda>st3. (None, plus_state st3
                   \<lparr>errors = [], warnings = [],
                    printed = [js ''  Rules: '' @ decimal (length rules) @ js '' found''],
                    fscalls = []\<rparr>))"
    have "check_rules b = (\<lambda>st. ?f (plus_state st
        \<lparr>errors = [], warnings = [], printed = [],
         fscalls = [Access [js ''rules''], Readdir [js ''rules'']]\<rparr>))"
      using True Inr by (simp add: fun_eq_iff check_rules_def Let_def as_plus rules_def)
    moreover have "appends (\<lambda>m. \<not> about_manifest m) (\<lambda>w. False) ?f"
      by (intro appends_then_do appends_for_of appends_check_rule appends_return) simp_all
    ultimately show ?thesis
      by (simp add: appends_after)
  qed
qed

lemma appends_check_commands: "appends (\<lambda>m. \<not> about_manifest m) (\<lambda>w. False) (check_commands b)"
proof (cases "exists b [js ''commands'']")
  case False
  have "check_commands b = (\<lambda>st. (None, plus_state st
      \<lparr>errors = [], warnings = [], printed = [], fscalls = [Access [js ''commands'']]\<rparr>))"
    using False by (simp add: fun_eq_iff check_commands_def Let_def as_plus)
  then show ?thesis
    by (simp add: appends_return)
next
  case True
  show ?thesis
  proof (cases "readdir b [js ''commands'']")
    case (Inl e)
    have "check_commands b = (\<lambda>st. (Some e, plus_state st
        \<lparr>errors = [], warnings = [], printed = [],
         fscalls = [Access [js ''commands''], Readdir [js ''commands'']]\<rparr>))"
      using True Inl by (simp add: fun_eq_iff check_commands_def Let_def as_plus)
    then show ?thesis
      by (simp add: appends_return)
  next
    case (Inr names)
    define commands where "commands = filter (\<lambda>f. endsWith f (js ''.md'')) names"
    let ?f = "then_do (for_of (check_command b) commands)
                (\<lambda>st3. (None, plus_state st3
                   \<lparr>errors = [], warnings = [],
                    printed = [js ''  Commands: '' @ decimal (length commands) @ js '' found''],
                    fscalls = []\<rparr>))"
    have "check_commands b = (\<lambda>st. ?f (plus_state st
        \<lparr>errors = [], warnings = [], printed = [],
         fscalls = [Access [js ''commands''], Readdir [js ''commands'']]\<rparr>))"
      using True Inr by (simp add: fun_eq_iff check_commands_def Let_def as_plus commands_def)
    moreover have "appends (\<lambda>m. \<not> about_manifest m) (\<lambda>w. False) ?f"
      by (intro appends_then_do appends_for_of appends_check_command appends_return) simp_all
    ultimately show ?thesis
      by (simp add: appends_after)
  qed
qed

lemma appends_check_agents: "appends (\<lambda>m. \<not> about_manifest m) (\<lambda>w. False) (check_agents b)"
proof (cases "exists b [js ''agents'']")
  case False
  have "check_agents b = (\<lambda>st. (None, plus_state st
      \<lparr>errors = [], warnings = [], printed = [], fscalls = [Access [js ''agents'']]\<rparr>))"
    using False by (simp add: fun_eq_iff check_agents_def Let_def as_plus)
  then show ?thesis
    by (simp add: appends_return)
next
  case True
  show ?thesis
  proof (cases "readdir b [js ''agents'']")
    case (Inl e)
    have "check_agents b = (\<lambda>st. (Some e, plus_state st
        \<lparr>errors = [], warnings = [], printed = [],
         fscalls = [Access [js ''agents''], Readdir [js ''agents'']]\<rparr>))"
      using True Inl by (simp add: fun_eq_iff check_agents_def Let_def as_plus)
    then show ?thesis
      by (simp add: appends_return)
  next
    case (Inr names)
    define agents where "agents = filter (\<lambda>f. endsWith f (js ''.md'')) names"
    let ?f = "then_do (for_of (check_agent b) agents)
                (\<lambda>st3. (None, plus_state st3
                   \<lparr>errors = [], warnings = [],
                    printed = [js ''  Agents: '' @ decimal (length agents) @ js '' found''],
                    fscalls = []\<rparr>))"
    have "check_agents b = (\<lambda>st. ?f (plus_state st
        \<lparr>errors = [], warnings = [], printed = [],
         fscalls = [Access [js ''agents''], Readdir [js ''agents'']]\<rparr>))"
      using True Inr by (simp add: fun_eq_iff check_agents_def Let_def as_plus agents_def)
    moreover have "appends (\<lambda>m. \<not> about_manifest m) (\<lambda>w. False) ?f"
      by (intro appends_then_do appends_for_of appends_check_agent appends_return) simp_all
    ultimately show ?thesis
      by (simp add: appends_after)
  qed
qed

lemma appends_after_skills: "appends (\<lambda>m. \<not> about_manifest m) (\<lambda>w. False) (after_skills b)"
  unfolding after_skills_def
  by (intro appends_then_do appends_check_rules appends_check_commands appends_check_agents)

lemma appends_directories: "appends (\<lambda>m. \<not> about_manifest m) (\<lambda>w. False) (directories b)"
  unfolding directories_def
  by (intro appends_then_do appends_check_skills appends_after_skills)

section \<open>The report and the manifest checks\<close>

text \<open>The report reads the accumulators and leaves them as they are.\<close>

lemma console_log_sel [simp]:
  "errors (console_log l st) = errors st"
  "warnings (console_log l st) = warnings st"
  "fscalls (console_log l st) = fscalls st"
  by (simp_all add: console_log_def)

lemma foldl_console_log [simp]:
  "errors (foldl (\<lambda>s x. console_log (f x) s) st xs) = errors st"
  "warnings (foldl (\<lambda>s x. console_log (f x) s) st xs) = warnings st"
  "fscalls (foldl (\<lambda>s x. console_log (f x) s) st xs) = fscalls st"
  by (induction xs arbitrary: st) simp_all

lemma report_outcome: "fst (report st) = (if errors st \<noteq> [] then Exited 1 else Returned)"
  by (simp add: report_def Let_def)

lemma report_keeps:
  "errors (snd (report st)) = errors st"
  "warnings (snd (report st)) = warnings st"
  "fscalls (snd (report st)) = fscalls st"
  by (simp_all add: report_def Let_def)

lemma then_do_appends:
  assumes f: "appends P W f" and g: "appends P' W' g"
  shows "then_do f g st =
    (case fst (f initial) of
       Some e \<Rightarrow> (Some e, plus_state st (snd (f initial)))
     | None \<Rightarrow> (fst (g initial), plus_state st (plus_state (snd (f initial)) (snd (g initial)))))"
  using appendsD [OF f, of st] appendsD [OF g, of "plus_state st (snd (f initial))"]
  by (simp add: then_do_def plus_state_assoc split: option.splits)

lemma run_truthy:
  assumes "ToBoolean (Some (readJson parse b manifestPath))"
  shows "run parse b =
    (case checks b (readJson parse b manifestPath) (calls (ReadFile manifestPath) initial) of
       (Some e, st') \<Rightarrow> (Threw e, st')
     | (None, st') \<Rightarrow> report st')"
  using assms by (simp add: run_def validatePlugin_def Let_def)

text \<open>The manifest checks, as additions.\<close>

lemma about_manifest_messages [simp]:
  "about_manifest (js ''plugin.json name \"'' @ x)"
  "about_manifest (js ''plugin.json missing required field: '' @ x)"
  "about_name (js ''plugin.json name \"'' @ x)"
  "\<not> about_name (js ''plugin.json missing required field: '' @ x)"
  by (simp_all add: about_manifest_def about_name_def startsWith_def js_def)

lemma js_append: "js (a @ b) = js a @ js b"
  by (simp add: js_def)



lemma check_name_eq:
  assumes "ToString (js_get pj (js ''name'')) = Inr name"
  shows "check_name pj st = (None, plus_state st
    \<lparr>errors = (if \<not> rx_test namePattern name
                then [js ''plugin.json name \"'' @ name @ js ''\" doesn't match pattern'']
                else []),
     warnings = [], printed = [], fscalls = []\<rparr>)"
  using assms by (simp add: check_name_def as_plus plus_state_def)

lemma check_name_throws:
  assumes "ToString (js_get pj (js ''name'')) = Inl e"
  shows "check_name pj st = (Some e, st)"
  using assms by (simp add: check_name_def)

lemma for_of_check_field:
  "for_of (check_field pj) fs st = (None, plus_state st
    \<lparr>errors = map (\<lambda>f. js ''plugin.json missing required field: '' @ f)
                (filter (\<lambda>f. \<not> ToBoolean (js_get pj f)) fs),
     warnings = [], printed = [], fscalls = []\<rparr>)"
proof (induction fs arbitrary: st)
  case Nil
  show ?case by (simp add: plus_state_def)
next
  case (Cons f fs)
  have cf: "check_field pj f st = (None, plus_state st
      \<lparr>errors = (if \<not> ToBoolean (js_get pj f)
                  then [js ''plugin.json missing required field: '' @ f] else []),
       warnings = [], printed = [], fscalls = []\<rparr>)"
    by (simp add: check_field_def as_plus plus_state_def)
  show ?case
    by (simp only: for_of.simps cf prod.case option.case Cons.IH)
      (simp add: plus_state_assoc plus_state_literal)
qed

lemma check_fields_eq:
  "check_fields pj st = (None, plus_state st
    \<lparr>errors = map (\<lambda>f. js ''plugin.json missing required field: '' @ f)
                (filter (\<lambda>f. \<not> ToBoolean (js_get pj f)) required_fields),
     warnings = [], printed = [], fscalls = []\<rparr>)"
  by (simp add: check_fields_def for_of_check_field)

lemma print_name_eq:
  assumes "ToString (js_get pj (js ''name'')) = Inr name"
  shows "print_name pj st = (None, plus_state st
    \<lparr>errors = [], warnings = [], printed = [js ''Validating plugin: '' @ name @ [LF]], fscalls = []\<rparr>)"
  using assms by (simp add: print_name_def as_plus)

lemma check_logo_absent:
  assumes "\<not> ToBoolean (js_get pj (js ''logo''))"
  shows "check_logo b pj st = (None, st)"
  using assms by (simp add: check_logo_def)

lemma check_logo_string:
  assumes "js_get pj (js ''logo'') = Some (JStr logo)" and "logo \<noteq> []"
  shows "check_logo b pj st = (None, plus_state st
    \<lparr>errors = [],
     warnings = (if \<not> exists b [logo] then [js ''Logo file not found: '' @ logo] else []),
     printed = [], fscalls = [Access [logo]]\<rparr>)"
  using assms by (simp add: check_logo_def Let_def as_plus)

lemma check_logo_other:
  assumes "ToBoolean (js_get pj (js ''logo''))" and "\<forall>logo. js_get pj (js ''logo'') \<noteq> Some (JStr logo)"
  shows "check_logo b pj st = (Some TypeError, st)"
  using assms by (simp add: check_logo_def split: option.splits json.splits)

lemma appends_check_logo: "appends (\<lambda>m. False) (\<lambda>w. True) (check_logo b pj)"
proof (cases "ToBoolean (js_get pj (js ''logo''))")
  case False
  then have "check_logo b pj = (\<lambda>st. (None, plus_state st initial))"
    by (simp add: fun_eq_iff check_logo_absent plus_state_initial_right)
  then show ?thesis
    by (simp add: appends_return)
next
  case True
  show ?thesis
  proof (cases "\<exists>logo. js_get pj (js ''logo'') = Some (JStr logo)")
    case False
    then have "check_logo b pj = (\<lambda>st. (Some TypeError, plus_state st initial))"
      using True by (simp add: fun_eq_iff check_logo_other plus_state_initial_right)
    then show ?thesis
      by (simp add: appends_return)
  next
    case True
    then obtain logo where l: "js_get pj (js ''logo'') = Some (JStr logo)"
      by blast
    with \<open>ToBoolean (js_get pj (js ''logo''))\<close> have "logo \<noteq> []"
      by simp
    then have "check_logo b pj = (\<lambda>st. (None, plus_state st
        \<lparr>errors = [],
         warnings = (if \<not> exists b [logo] then [js ''Logo file not found: '' @ logo] else []),
         printed = [], fscalls = [Access [logo]]\<rparr>))"
      by (simp add: fun_eq_iff check_logo_string [OF l])
    then show ?thesis
      by (simp add: appends_return)
  qed
qed

lemma appends_logo_directories:
  "appends (\<lambda>m. \<not> about_manifest m) (\<lambda>w. True) (then_do (check_logo b pj) (directories b))"
  by (intro appends_then_do appends_mono [OF appends_check_logo] appends_mono [OF appends_directories])
    simp_all

text \<open>The checks of a manifest whose name has a rendering.\<close>

lemma checks_eq:
  assumes "ToString (js_get pj (js ''name'')) = Inr name"
  shows "checks b pj st =
    (fst (then_do (check_logo b pj) (directories b) initial),
     plus_state st
       (plus_state
          \<lparr>errors =
             (if \<not> rx_test namePattern name
              then [js ''plugin.json name \"'' @ name @ js ''\" doesn't match pattern'']
              else []) @
             map (\<lambda>f. js ''plugin.json missing required field: '' @ f)
               (filter (\<lambda>f. \<not> ToBoolean (js_get pj f)) required_fields),
           warnings = [], printed = [js ''Validating plugin: '' @ name @ [LF]], fscalls = []\<rparr>
          (snd (then_do (check_logo b pj) (directories b) initial))))"
proof -
  define M where "M =
    \<lparr>errors =
       (if \<not> rx_test namePattern name
        then [js ''plugin.json name \"'' @ name @ js ''\" doesn't match pattern'']
        else []) @
       map (\<lambda>f. js ''plugin.json missing required field: '' @ f)
         (filter (\<lambda>f. \<not> ToBoolean (js_get pj f)) required_fields),
     warnings = [], printed = [js ''Validating plugin: '' @ name @ [LF]], fscalls = []\<rparr>"
  have "checks b pj st = then_do (check_logo b pj) (directories b) (plus_state st M)"
    unfolding checks_def M_def
    by (simp add: then_do_def [of "check_name pj"] then_do_def [of "check_fields pj"]
        then_do_def [of "print_name pj"] check_name_eq [OF assms] check_fields_eq
        print_name_eq [OF assms] plus_state_assoc plus_state_literal)
  also have "\<dots> = (fst (then_do (check_logo b pj) (directories b) initial),
      plus_state (plus_state st M) (snd (then_do (check_logo b pj) (directories b) initial)))"
    by (rule appendsD [OF appends_logo_directories])
  finally show ?thesis
    unfolding M_def by (simp only: plus_state_assoc)
qed

lemma checks_throws:
  assumes "ToString (js_get pj (js ''name'')) = Inl e"
  shows "checks b pj st = (Some e, st)"
  by (simp add: checks_def then_do_def check_name_throws [OF assms])

section \<open>Running the validator on a given directory\<close>

lemma js_eq [simp]: "(js a = js b) = (a = b)"
  by (simp add: js_def inj_map_eq_map inj_on_def)

lemma js_nil [simp]: "(js a = []) = (a = [])" "([] = js a) = (a = [])"
  by (auto simp: js_def)

lemma decimal_digit: "n < 10 \<Longrightarrow> decimal n = [48 + n]"
  by (simp add: decimal.simps)

lemma names_tested:
  "rx_test namePattern (js ''my-plugin'')"
  "\<not> rx_test namePattern (js ''My_Plugin'')"
  "rx_test namePattern (js ''undefined'')"
  by code_simp+

lemmas run_defs = only_def disk_def manifestPath_def readJson_def readFile_def readdir_def
  exists_def required_fields_def ToString_def run_def validatePlugin_def checks_def
  directories_def after_skills_def then_do_def check_name_def check_fields_def check_field_def
  print_name_def check_logo_def check_skills_def check_rules_def check_commands_def
  check_agents_def check_skill_def check_rule_def check_command_def check_agent_def
  check_skill_frontmatter_def check_rule_frontmatter_def check_command_frontmatter_def
  check_agent_frontmatter_def report_def error_def warn_def console_log_def calls_def
  initial_def exit_code_def Let_def field_truthy_def decimal_digit names_tested

text \<open>The definitions behind an evaluation of \<open>parseFrontmatter\<close>.\<close>

lemmas fm_defs = parseFrontmatter_def Let_def startsWith_def indexOf_def slice_def parse_line_def
  assign_field_def rx_exec_def fieldPattern_def trim_def is_word_def is_word_or_hyphen_def
  is_space_def is_dot_def is_line_terminator_def js_def LF_def

text \<open>A run whose manifest is there and whose name has a rendering, taken apart.\<close>

lemma run_eq:
  assumes pj: "pj = readJson parse b manifestPath" and t: "ToBoolean (Some pj)"
    and n: "ToString (js_get pj (js ''name'')) = Inr name"
  defines "T \<equiv> then_do (check_logo b pj) (directories b) initial"
  defines "M \<equiv>
     (if \<not> rx_test namePattern name
      then [js ''plugin.json name \"'' @ name @ js ''\" doesn't match pattern'']
      else []) @
     map (\<lambda>f. js ''plugin.json missing required field: '' @ f)
       (filter (\<lambda>f. \<not> ToBoolean (js_get pj f)) required_fields)"
  shows "errors (snd (run parse b)) = M @ errors (snd T)"
    and "warnings (snd (run parse b)) = warnings (snd T)"
    and "fscalls (snd (run parse b)) = ReadFile manifestPath # fscalls (snd T)"
    and "fst (run parse b) =
      (case fst T of Some e \<Rightarrow> Threw e
       | None \<Rightarrow> if M @ errors (snd T) \<noteq> [] then Exited 1 else Returned)"
proof -
  have r: "run parse b =
    (case checks b pj (calls (ReadFile manifestPath) initial) of
       (Some e, st') \<Rightarrow> (Threw e, st')
     | (None, st') \<Rightarrow> report st')"
    using run_truthy [of parse b] t unfolding pj by simp
  note c = checks_eq [OF n, of b "calls (ReadFile manifestPath) initial"]
  show "errors (snd (run parse b)) = M @ errors (snd T)"
    unfolding r c T_def M_def
    by (cases "fst (then_do (check_logo b pj) (directories b) initial)")
      (simp_all add: report_keeps calls_def initial_def)
  show "warnings (snd (run parse b)) = warnings (snd T)"
    unfolding r c T_def
    by (cases "fst (then_do (check_logo b pj) (directories b) initial)")
      (simp_all add: report_keeps calls_def initial_def)
  show "fscalls (snd (run parse b)) = ReadFile manifestPath # fscalls (snd T)"
    unfolding r c T_def
    by (cases "fst (then_do (check_logo b pj) (directories b) initial)")
      (simp_all add: report_keeps calls_def initial_def)
  show "fst (run parse b) =
      (case fst T of Some e \<Rightarrow> Threw e
       | None \<Rightarrow> if M @ errors (snd T) \<noteq> [] then Exited 1 else Returned)"
    unfolding r c T_def M_def
    by (cases "fst (then_do (check_logo b pj) (directories b) initial)")
      (simp_all add: report_outcome calls_def initial_def)
qed




lemma check_logo_result: "fst (check_logo b pj st) = None \<or> fst (check_logo b pj st) = Some TypeError"
  by (simp add: check_logo_def Let_def split: option.splits json.splits)



text \<open>The exit code of a run whose manifest is there.\<close>

lemma run_exit_code:
  assumes "ToBoolean (Some (readJson parse b manifestPath))"
  shows "exit_code (fst (run parse b)) =
    (if (\<exists>e. fst (run parse b) = Threw e) \<or> errors (snd (run parse b)) \<noteq> [] then 1 else 0)"
proof (cases "checks b (readJson parse b manifestPath) (calls (ReadFile manifestPath) initial)")
  case (Pair r st')
  show ?thesis
  proof (cases r)
    case None
    with Pair have "run parse b = report st'"
      by (simp add: run_truthy [OF assms])
    then show ?thesis
      by (simp add: report_outcome report_keeps exit_code_def)
  next
    case (Some e)
    with Pair have "run parse b = (Threw e, st')"
      by (simp add: run_truthy [OF assms])
    then show ?thesis
      by (simp add: exit_code_def)
  qed
qed

section \<open>What the matcher accepts\<close>

lemma in_One:
  "(g, t) \<in> set (rx_run (One p) s) \<longleftrightarrow> g = [] \<and> (\<exists>c. s = c # t \<and> p c)"
  by (cases s) auto

lemma take_takeWhile:
  "k \<le> length (takeWhile p s) \<Longrightarrow> list_all p (take k s)"
proof -
  assume k: "k \<le> length (takeWhile p s)"
  have "take k s = take k (takeWhile p s @ dropWhile p s)"
    by simp
  also have "\<dots> = take k (takeWhile p s)"
    using k by (simp only: take_append) simp
  finally have "set (take k s) \<subseteq> set (takeWhile p s)"
    by (simp add: set_take_subset)
  then show ?thesis
    by (auto simp: list_all_iff dest: set_takeWhileD)
qed

lemma prefix_takeWhile:
  "list_all p pre \<Longrightarrow> length pre \<le> length (takeWhile p (pre @ t))"
  by (simp add: list_all_iff takeWhile_append2)

lemma drop_prefix_iff:
  "(\<exists>k. a \<le> k \<and> k \<le> length (takeWhile p s) \<and> t = drop k s) \<longleftrightarrow>
   (\<exists>pre. s = pre @ t \<and> a \<le> length pre \<and> list_all p pre)"
proof
  assume "\<exists>k. a \<le> k \<and> k \<le> length (takeWhile p s) \<and> t = drop k s"
  then obtain k where k: "a \<le> k" "k \<le> length (takeWhile p s)" "t = drop k s"
    by blast
  have "k \<le> length s"
    using k(2) length_takeWhile_le [of p s] by linarith
  then have "s = take k s @ t \<and> a \<le> length (take k s) \<and> list_all p (take k s)"
    using k take_takeWhile [OF k(2)] by simp
  then show "\<exists>pre. s = pre @ t \<and> a \<le> length pre \<and> list_all p pre"
    by blast
next
  assume "\<exists>pre. s = pre @ t \<and> a \<le> length pre \<and> list_all p pre"
  then obtain pre where p: "s = pre @ t" "a \<le> length pre" "list_all p pre"
    by blast
  have "a \<le> length pre \<and> length pre \<le> length (takeWhile p s) \<and> t = drop (length pre) s"
    using p prefix_takeWhile [OF p(3), of t] by simp
  then show "\<exists>k. a \<le> k \<and> k \<le> length (takeWhile p s) \<and> t = drop k s"
    by blast
qed

lemma in_Star:
  "(g, t) \<in> set (rx_run (Star p) s) \<longleftrightarrow> g = [] \<and> (\<exists>pre. s = pre @ t \<and> list_all p pre)"
proof -
  have "(g, t) \<in> set (rx_run (Star p) s) \<longleftrightarrow>
      g = [] \<and> (\<exists>k. 0 \<le> k \<and> k \<le> length (takeWhile p s) \<and> t = drop k s)"
    by (auto simp: less_Suc_eq_le image_iff simp del: upt_Suc)
  then show ?thesis
    unfolding drop_prefix_iff by simp
qed

lemma in_Plus:
  "(g, t) \<in> set (rx_run (Plus p) s) \<longleftrightarrow>
   g = [] \<and> (\<exists>pre. s = pre @ t \<and> pre \<noteq> [] \<and> list_all p pre)"
proof -
  have "(g, t) \<in> set (rx_run (Plus p) s) \<longleftrightarrow>
      g = [] \<and> (\<exists>k. 1 \<le> k \<and> k \<le> length (takeWhile p s) \<and> t = drop k s)"
    by (auto simp: less_Suc_eq_le image_iff simp del: upt_Suc)
  moreover have "1 \<le> length pre \<longleftrightarrow> pre \<noteq> []" for pre :: jsstring
    by (cases pre) simp_all
  ultimately show ?thesis
    unfolding drop_prefix_iff by simp
qed

lemma in_Cat:
  "(g, t) \<in> set (rx_run (Cat a b) s) \<longleftrightarrow>
   (\<exists>ga gb m. g = ga @ gb \<and> (ga, m) \<in> set (rx_run a s) \<and> (gb, t) \<in> set (rx_run b m))"
  by (auto simp: image_iff) force

lemma in_CatI:
  "(ga, m) \<in> set (rx_run a s) \<Longrightarrow> (gb, t) \<in> set (rx_run b m) \<Longrightarrow>
   (ga @ gb, t) \<in> set (rx_run (Cat a b) s)"
  using in_Cat [of "ga @ gb" t a b s] by blast

lemma in_Group:
  "(g, t) \<in> set (rx_run (Group a) s) \<longleftrightarrow>
   (\<exists>g'. g = take (length s - length t) s # g' \<and> (g', t) \<in> set (rx_run a s))"
  by auto

lemma in_Opt:
  "(g, t) \<in> set (rx_run (Opt a) s) \<longleftrightarrow> (g, t) \<in> set (rx_run a s) \<or> (g = [] \<and> t = s)"
  by auto

lemma rx_exec_None: "rx_exec r s = None \<longleftrightarrow> (\<forall>g. (g, []) \<notin> set (rx_run r s))"
  by (auto simp: rx_exec_def find_None_iff)

lemma rx_exec_Some: "rx_exec r s = Some g \<Longrightarrow> (g, []) \<in> set (rx_run r s)"
proof -
  assume "rx_exec r s = Some g"
  then obtain x where x: "find (\<lambda>(g, rest). rest = []) (rx_run r s) = Some x" "fst x = g"
    by (auto simp: rx_exec_def)
  then obtain i where "i < length (rx_run r s)" "rx_run r s ! i = x" "snd x = []"
    by (auto simp: find_Some_iff)
  then have "x \<in> set (rx_run r s)" "x = (g, [])"
    using x(2) nth_mem by (force, cases x, simp)
  then show ?thesis
    by simp
qed


lemma key_group:
  "(g, m) \<in> set (rx_run (Group (Cat (One is_word) (Star is_word_or_hyphen))) s) \<longleftrightarrow>
   (\<exists>k. s = k @ m \<and> k \<noteq> [] \<and> is_word (hd k) \<and> list_all is_word_or_hyphen (tl k) \<and> g = [k])"
proof
  assume "(g, m) \<in> set (rx_run (Group (Cat (One is_word) (Star is_word_or_hyphen))) s)"
  then obtain g' where g: "g = take (length s - length m) s # g'"
    and "(g', m) \<in> set (rx_run (Cat (One is_word) (Star is_word_or_hyphen)) s)"
    using in_Group [of g m] by blast
  then obtain ga gb r where g': "g' = ga @ gb" and 1: "(ga, r) \<in> set (rx_run (One is_word) s)"
    and 2: "(gb, m) \<in> set (rx_run (Star is_word_or_hyphen) r)"
    using in_Cat [of g' m] by blast
  from 1 obtain c where c: "ga = []" "s = c # r" "is_word c"
    using in_One [of ga r] by blast
  from 2 obtain pre where pre: "gb = []" "r = pre @ m" "list_all is_word_or_hyphen pre"
    using in_Star [of gb m] by blast
  have "s = (c # pre) @ m \<and> c # pre \<noteq> [] \<and> is_word (hd (c # pre)) \<and>
      list_all is_word_or_hyphen (tl (c # pre)) \<and> g = [c # pre]"
    using g g' c pre by simp
  then show "\<exists>k. s = k @ m \<and> k \<noteq> [] \<and> is_word (hd k) \<and> list_all is_word_or_hyphen (tl k) \<and> g = [k]"
    by blast
next
  assume "\<exists>k. s = k @ m \<and> k \<noteq> [] \<and> is_word (hd k) \<and> list_all is_word_or_hyphen (tl k) \<and> g = [k]"
  then obtain c pre where s: "s = c # pre @ m" and c: "is_word c"
    and pre: "list_all is_word_or_hyphen pre" and g: "g = [c # pre]"
    by (auto simp: neq_Nil_conv)
  have 1: "([], pre @ m) \<in> set (rx_run (One is_word) s)"
    using s c in_One [of "[]" "pre @ m" is_word s] by simp
  have 2: "([], m) \<in> set (rx_run (Star is_word_or_hyphen) (pre @ m))"
    using pre in_Star [of "[]" m is_word_or_hyphen "pre @ m"] by blast
  have "([], m) \<in> set (rx_run (Cat (One is_word) (Star is_word_or_hyphen)) s)"
    using 1 2 in_Cat [of "[]" m "One is_word" "Star is_word_or_hyphen" s] by fastforce
  moreover have "take (length s - length m) s = c # pre"
    using s by simp
  ultimately show "(g, m) \<in> set (rx_run (Group (Cat (One is_word) (Star is_word_or_hyphen))) s)"
    using g in_Group [of g m "Cat (One is_word) (Star is_word_or_hyphen)" s] by simp
qed

lemma value_group:
  "(g, []) \<in> set (rx_run (Group (Plus is_dot)) s) \<longleftrightarrow>
   (s \<noteq> [] \<and> list_all is_dot s \<and> g = [s])"
  using in_Group [of g "[]" "Plus is_dot" s] in_Plus [of _ "[]" is_dot s] by auto

lemma field_matches:
  "(gs, []) \<in> set (rx_run fieldPattern line) \<longleftrightarrow>
   (\<exists>k ws v. line = k @ 58 # ws @ v \<and> k \<noteq> [] \<and> is_word (hd k) \<and>
      list_all is_word_or_hyphen (tl k) \<and> list_all is_space ws \<and> v \<noteq> [] \<and>
      list_all is_dot v \<and> gs = [k, v])"
proof
  assume "(gs, []) \<in> set (rx_run fieldPattern line)"
  then obtain g1 g2 m1 where gs: "gs = g1 @ g2"
    and 1: "(g1, m1) \<in> set (rx_run (Group (Cat (One is_word) (Star is_word_or_hyphen))) line)"
    and 2: "(g2, []) \<in> set (rx_run (Cat (One (\<lambda>c. c = 58)) (Cat (Star is_space) (Group (Plus is_dot)))) m1)"
    unfolding fieldPattern_def using in_Cat [of gs "[]"] by blast
  from 2 obtain g3 g4 m2 where g2: "g2 = g3 @ g4"
    and 3: "(g3, m2) \<in> set (rx_run (One (\<lambda>c. c = 58)) m1)"
    and 4: "(g4, []) \<in> set (rx_run (Cat (Star is_space) (Group (Plus is_dot))) m2)"
    using in_Cat [of g2 "[]"] by blast
  from 4 obtain g5 g6 m3 where g4: "g4 = g5 @ g6"
    and 5: "(g5, m3) \<in> set (rx_run (Star is_space) m2)"
    and 6: "(g6, []) \<in> set (rx_run (Group (Plus is_dot)) m3)"
    using in_Cat [of g4 "[]"] by blast
  from 1 obtain k where k: "line = k @ m1" "k \<noteq> []" "is_word (hd k)"
    "list_all is_word_or_hyphen (tl k)" "g1 = [k]"
    using key_group [of g1 m1 line] by blast
  from 3 have c: "g3 = []" "m1 = 58 # m2"
    using in_One [of g3 m2 _ m1] by auto
  from 5 obtain ws where ws: "g5 = []" "m2 = ws @ m3" "list_all is_space ws"
    using in_Star [of g5 m3] by blast
  from 6 have v: "m3 \<noteq> []" "list_all is_dot m3" "g6 = [m3]"
    using value_group [of g6 m3] by auto
  have "line = k @ 58 # ws @ m3 \<and> k \<noteq> [] \<and> is_word (hd k) \<and>
      list_all is_word_or_hyphen (tl k) \<and> list_all is_space ws \<and> m3 \<noteq> [] \<and>
      list_all is_dot m3 \<and> gs = [k, m3]"
    using gs g2 g4 k c ws v by simp
  then show "\<exists>k ws v. line = k @ 58 # ws @ v \<and> k \<noteq> [] \<and> is_word (hd k) \<and>
      list_all is_word_or_hyphen (tl k) \<and> list_all is_space ws \<and> v \<noteq> [] \<and>
      list_all is_dot v \<and> gs = [k, v]"
    by blast
next
  assume "\<exists>k ws v. line = k @ 58 # ws @ v \<and> k \<noteq> [] \<and> is_word (hd k) \<and>
      list_all is_word_or_hyphen (tl k) \<and> list_all is_space ws \<and> v \<noteq> [] \<and>
      list_all is_dot v \<and> gs = [k, v]"
  then obtain k ws v where l: "line = k @ 58 # ws @ v" and k: "k \<noteq> []" "is_word (hd k)"
    "list_all is_word_or_hyphen (tl k)" and ws: "list_all is_space ws"
    and v: "v \<noteq> []" "list_all is_dot v" and gs: "gs = [k, v]"
    by blast
  have 1: "([k], 58 # ws @ v) \<in> set (rx_run (Group (Cat (One is_word) (Star is_word_or_hyphen))) line)"
    using key_group [of "[k]" "58 # ws @ v" line] l k by simp
  have 3: "([], ws @ v) \<in> set (rx_run (One (\<lambda>c. c = 58)) (58 # ws @ v))"
    using in_One [of "[]" "ws @ v" "\<lambda>c. c = 58" "58 # ws @ v"] by simp
  have 5: "([], v) \<in> set (rx_run (Star is_space) (ws @ v))"
    using in_Star [of "[]" v is_space "ws @ v"] ws by blast
  have 6: "([v], []) \<in> set (rx_run (Group (Plus is_dot)) v)"
    using value_group [of "[v]" v] v by simp
  have e: "gs = [k] @ ([] @ ([] @ [v]))"
    using gs by simp
  show "(gs, []) \<in> set (rx_run fieldPattern line)"
    unfolding fieldPattern_def e
    by (rule in_CatI [OF 1 in_CatI [OF 3 in_CatI [OF 5 6]]])
qed

section \<open>What a line of the block gives\<close>

lemma key_has_no_colon:
  assumes "k \<noteq> []" "is_word (hd k)" "list_all is_word_or_hyphen (tl k)"
  shows "takeWhile (\<lambda>c. c \<noteq> 58) (k @ 58 # r) = k"
proof -
  have "list_all is_word_or_hyphen k"
    using assms by (cases k) (simp_all add: is_word_or_hyphen_def)
  then have "\<forall>c \<in> set k. c \<noteq> 58"
    by (auto simp: list_all_iff is_word_or_hyphen_def is_word_def)
  then show ?thesis
    by (simp add: takeWhile_append2)
qed

lemma trim_spaces: "list_all is_space ws \<Longrightarrow> trim (ws @ v) = trim v"
  by (simp add: trim_def dropWhile_append list_all_iff)

lemma parse_line_match:
  assumes l: "line = k @ 58 # ws @ v" and k: "k \<noteq> []" "is_word (hd k)"
    "list_all is_word_or_hyphen (tl k)" and ws: "list_all is_space ws"
    and v: "v \<noteq> []" "list_all is_dot v"
  shows "parse_line fs line = assign_field fs k (trim (ws @ v))"
proof -
  have "([k, v], []) \<in> set (rx_run fieldPattern line)"
    using field_matches [of "[k, v]" line] assms by blast
  then obtain gs where gs: "rx_exec fieldPattern line = Some gs"
    using rx_exec_None [of fieldPattern line] by (cases "rx_exec fieldPattern line") auto
  then have "(gs, []) \<in> set (rx_run fieldPattern line)"
    by (rule rx_exec_Some)
  then obtain k' ws' v' where l': "line = k' @ 58 # ws' @ v'" and k': "k' \<noteq> []" "is_word (hd k')"
    "list_all is_word_or_hyphen (tl k')" and ws': "list_all is_space ws'" and g: "gs = [k', v']"
    using field_matches [of gs line] by blast
  have "k' = k"
    using key_has_no_colon [OF k, of "ws @ v"] key_has_no_colon [OF k', of "ws' @ v'"] l l' by simp
  then have "ws' @ v' = ws @ v"
    using l l' by simp
  then have "trim v' = trim (ws @ v)"
    using trim_spaces [OF ws', of v'] by simp
  then show ?thesis
    using gs g \<open>k' = k\<close> by (simp add: parse_line_def)
qed

lemma parse_line_other:
  assumes "\<nexists>k ws v. line = k @ 58 # ws @ v \<and> k \<noteq> [] \<and> is_word (hd k) \<and>
      list_all is_word_or_hyphen (tl k) \<and> list_all is_space ws \<and> v \<noteq> [] \<and> list_all is_dot v"
  shows "parse_line fs line = fs"
proof -
  have "rx_exec fieldPattern line = None"
    unfolding rx_exec_None field_matches using assms by blast
  then show ?thesis
    by (simp add: parse_line_def)
qed

section \<open>The delimiters\<close>

text \<open>Where the closing delimiter is looked for.\<close>

lemma indexOf_Some:
  assumes "indexOf s p from = Some k" and "from \<le> length s"
  shows "from \<le> k \<and> take (length p) (drop k s) = p \<and>
    (\<forall>j. from \<le> j \<and> j < k \<longrightarrow> take (length p) (drop j s) \<noteq> p)"
proof -
  let ?xs = "[min from (length s) ..< Suc (length s) - length p]"
  from assms(1) obtain i where i: "i < length ?xs" "take (length p) (drop (?xs ! i) s) = p"
    "k = ?xs ! i" "\<forall>j < i. take (length p) (drop (?xs ! j) s) \<noteq> p"
    unfolding indexOf_def find_Some_iff by blast
  have m: "min from (length s) = from"
    using assms(2) by simp
  have k: "k = from + i"
    using i(1,3) m by simp
  have "take (length p) (drop j s) \<noteq> p" if "from \<le> j" "j < k" for j
  proof -
    have "j - from < i" "?xs ! (j - from) = j"
      using that k i(1) m by simp_all
    then show ?thesis
      using i(4) by metis
  qed
  then show ?thesis
    using i(2,3) k by simp
qed

lemma indexOf_None:
  assumes "from \<le> length s"
  shows "indexOf s p from = None \<longleftrightarrow> (\<forall>k \<ge> from. take (length p) (drop k s) \<noteq> p \<or> length s < k + length p)"
proof -
  have "set [min from (length s) ..< Suc (length s) - length p] = {k. from \<le> k \<and> k + length p \<le> length s}"
    using assms by auto
  then show ?thesis
    unfolding indexOf_def find_None_iff by auto
qed

section \<open>Directories and keys that are not there\<close>

text \<open>What the later directory checks read lies outside \<^verbatim>\<open>skills\<close>.\<close>

lemma after_skills_cong:
  assumes "\<And>p. take 1 p \<noteq> [js ''skills''] \<Longrightarrow> b' p = b p"
  shows "after_skills b' = after_skills b"
proof -
  have r: "b' (js ''rules'' # q) = b (js ''rules'' # q)"
    and c: "b' (js ''commands'' # q) = b (js ''commands'' # q)"
    and a: "b' (js ''agents'' # q) = b (js ''agents'' # q)" for q
    by (simp_all add: assms)
  have cr: "check_rule b' = check_rule b"
    by (simp add: fun_eq_iff check_rule_def readFile_def r)
  have cc: "check_command b' = check_command b"
    by (simp add: fun_eq_iff check_command_def readFile_def c)
  have ca: "check_agent b' = check_agent b"
    by (simp add: fun_eq_iff check_agent_def readFile_def a)
  have "check_rules b' = check_rules b"
    unfolding check_rules_def exists_def readdir_def Let_def r cr by (rule refl)
  moreover have "check_commands b' = check_commands b"
    unfolding check_commands_def exists_def readdir_def Let_def c cc by (rule refl)
  moreover have "check_agents b' = check_agents b"
    unfolding check_agents_def exists_def readdir_def Let_def a ca by (rule refl)
  ultimately show ?thesis
    by (simp add: after_skills_def)
qed

lemma map_of_without:
  "map_of (filter (\<lambda>kv. fst kv \<noteq> f) kvs) g = (if g = f then None else map_of kvs g)"
  by (induction kvs) auto

section \<open>When a document has frontmatter\<close>

lemma delimiter_lengths:
  "length (js ''---'' @ [LF]) = 4" "length ([LF] @ js ''---'' @ [LF]) = 5"
  by (simp_all add: js_def)

lemma starts_long:
  assumes "startsWith n (js ''---'' @ [LF])"
  shows "4 \<le> length n"
proof -
  have "take (length (js ''---'' @ [LF])) n = js ''---'' @ [LF]"
    using assms by (simp only: startsWith_def)
  then have "length (js ''---'' @ [LF]) = min (length n) (length (js ''---'' @ [LF]))"
    by (metis length_take)
  then show ?thesis
    unfolding delimiter_lengths by linarith
qed

lemma occurrence_fits:
  assumes "take 5 (drop k n) = [LF] @ js ''---'' @ [LF]"
  shows "k + 5 \<le> length n"
proof -
  have "length ([LF] @ js ''---'' @ [LF]) = min (length (drop k n)) 5"
    using assms by (metis length_take)
  then show ?thesis
    unfolding delimiter_lengths by simp
qed

lemma parseFrontmatter_Some_iff:
  "parseFrontmatter content \<noteq> None \<longleftrightarrow>
   startsWith (replace_crlf content) (js ''---'' @ [LF]) \<and>
   (\<exists>k \<ge> 4. take 5 (drop k (replace_crlf content)) = [LF] @ js ''---'' @ [LF])"
proof -
  define n where "n = replace_crlf content"
  define opn where "opn = js ''---'' @ [LF]"
  define closing where "closing = [LF] @ js ''---'' @ [LF]"
  have p: "parseFrontmatter content =
      (if \<not> startsWith n opn then None
       else (case indexOf n closing 4 of
               None \<Rightarrow> None
             | Some c \<Rightarrow> Some (foldl parse_line Map.empty (split_lf (slice n 4 c)))))"
    unfolding parseFrontmatter_def Let_def n_def opn_def closing_def by (rule refl)
  have len: "length closing = 5"
    unfolding closing_def by (rule delimiter_lengths(2))
  show ?thesis
  proof (cases "startsWith n opn")
    case False
    then have "parseFrontmatter content \<noteq> None \<longleftrightarrow>
        startsWith n opn \<and> (\<exists>k \<ge> 4. take 5 (drop k n) = closing)"
      unfolding p by simp
    then show ?thesis
      unfolding n_def opn_def closing_def .
  next
    case True
    then have long: "4 \<le> length n"
      unfolding opn_def by (rule starts_long)
    have "indexOf n closing 4 = None \<longleftrightarrow>
        (\<forall>k \<ge> 4. take 5 (drop k n) \<noteq> closing \<or> length n < k + 5)"
      using indexOf_None [OF long, of closing] unfolding len by (simp add: add.commute)
    moreover have "take 5 (drop k n) \<noteq> closing \<or> length n < k + 5 \<longleftrightarrow>
        take 5 (drop k n) \<noteq> closing" for k
      using occurrence_fits [of k n] unfolding closing_def by linarith
    ultimately have "indexOf n closing 4 = None \<longleftrightarrow> (\<forall>k \<ge> 4. take 5 (drop k n) \<noteq> closing)"
      by simp
    then have "indexOf n closing 4 \<noteq> None \<longleftrightarrow> (\<exists>k \<ge> 4. take 5 (drop k n) = closing)"
      by simp
    moreover have "parseFrontmatter content \<noteq> None \<longleftrightarrow> indexOf n closing 4 \<noteq> None"
      unfolding p using True by (cases "indexOf n closing 4") simp_all
    ultimately have "parseFrontmatter content \<noteq> None \<longleftrightarrow>
        startsWith n opn \<and> (\<exists>k \<ge> 4. take 5 (drop k n) = closing)"
      using True by simp
    then show ?thesis
      unfolding n_def opn_def closing_def .
  qed
qed

lemma parseFrontmatter_Some:
  assumes "parseFrontmatter content = Some fm"
  shows "\<exists>c \<ge> 4.
      take 5 (drop c (replace_crlf content)) = [LF] @ js ''---'' @ [LF] \<and>
      (\<forall>k. 4 \<le> k \<and> k < c \<longrightarrow>
         take 5 (drop k (replace_crlf content)) \<noteq> [LF] @ js ''---'' @ [LF]) \<and>
      fm = foldl parse_line Map.empty (split_lf (take (c - 4) (drop 4 (replace_crlf content))))"
proof -
  define n where "n = replace_crlf content"
  define opn where "opn = js ''---'' @ [LF]"
  define closing where "closing = [LF] @ js ''---'' @ [LF]"
  have p: "parseFrontmatter content =
      (if \<not> startsWith n opn then None
       else (case indexOf n closing 4 of
               None \<Rightarrow> None
             | Some c \<Rightarrow> Some (foldl parse_line Map.empty (split_lf (slice n 4 c)))))"
    unfolding parseFrontmatter_def Let_def n_def opn_def closing_def by (rule refl)
  have len: "length closing = 5"
    unfolding closing_def by (rule delimiter_lengths(2))
  have s: "startsWith n opn"
    using assms unfolding p by (simp split: if_splits)
  then have long: "4 \<le> length n"
    unfolding opn_def by (rule starts_long)
  obtain c where c: "indexOf n closing 4 = Some c"
    and fm: "fm = foldl parse_line Map.empty (split_lf (slice n 4 c))"
    using assms s unfolding p by (cases "indexOf n closing 4") simp_all
  have "4 \<le> c \<and> take 5 (drop c n) = closing \<and>
      (\<forall>j. 4 \<le> j \<and> j < c \<longrightarrow> take 5 (drop j n) \<noteq> closing)"
    using indexOf_Some [OF c long] unfolding len by simp
  then have "4 \<le> c \<and> take 5 (drop c n) = closing \<and>
      (\<forall>k. 4 \<le> k \<and> k < c \<longrightarrow> take 5 (drop k n) \<noteq> closing) \<and>
      fm = foldl parse_line Map.empty (split_lf (take (c - 4) (drop 4 n)))"
    using fm unfolding slice_def by simp
  then have "\<exists>c \<ge> 4. take 5 (drop c n) = closing \<and>
      (\<forall>k. 4 \<le> k \<and> k < c \<longrightarrow> take 5 (drop k n) \<noteq> closing) \<and>
      fm = foldl parse_line Map.empty (split_lf (take (c - 4) (drop 4 n)))"
    by blast
  then show ?thesis
    unfolding n_def closing_def .
qed

text \<open>\<^verbatim>\<open>split("\n")\<close> gives the pieces that hold no line feed and join back to the text.\<close>

lemma split_lf_not_Nil: "split_lf s \<noteq> []"
  by (induction s) (auto split: list.splits)

lemma split_lf_join: "concat (map (\<lambda>l. l @ [LF]) (split_lf s)) = s @ [LF]"
proof (induction s)
  case Nil
  show ?case by simp
next
  case (Cons c cs)
  show ?case
  proof (cases "c = 10")
    case True
    then show ?thesis using Cons.IH by (simp add: LF_def)
  next
    case False
    obtain l ls where l: "split_lf cs = l # ls"
      using split_lf_not_Nil [of cs] by (cases "split_lf cs") auto
    then show ?thesis using Cons.IH False by simp
  qed
qed

lemma split_lf_lines: "l \<in> set (split_lf s) \<Longrightarrow> LF \<notin> set l"
proof (induction s arbitrary: l)
  case Nil
  then show ?case by simp
next
  case (Cons c cs)
  show ?case
  proof (cases "c = 10")
    case True
    then show ?thesis using Cons by auto
  next
    case False
    obtain h t where h: "split_lf cs = h # t"
      using split_lf_not_Nil [of cs] by (cases "split_lf cs") auto
    then have "l = c # h \<or> l \<in> set t"
      using Cons.prems False by simp
    then show ?thesis
      using Cons.IH [of h] Cons.IH [of l] h False by (auto simp: LF_def)
  qed
qed

lemma field_unmatched:
  "rx_exec fieldPattern line = None \<longleftrightarrow>
   (\<nexists>k ws v. line = k @ [58] @ ws @ v \<and> k \<noteq> [] \<and> is_word (hd k) \<and>
      list_all is_word_or_hyphen (tl k) \<and> list_all is_space ws \<and> v \<noteq> [] \<and>
      list_all is_dot v)"
proof -
  have a: "(\<exists>g. (g, []) \<in> set (rx_run fieldPattern line)) \<longleftrightarrow>
      (\<exists>k ws v. line = k @ 58 # ws @ v \<and> k \<noteq> [] \<and> is_word (hd k) \<and>
        list_all is_word_or_hyphen (tl k) \<and> list_all is_space ws \<and> v \<noteq> [] \<and>
        list_all is_dot v)"
    unfolding field_matches by blast
  have "rx_exec fieldPattern line = None \<longleftrightarrow> \<not> (\<exists>g. (g, []) \<in> set (rx_run fieldPattern line))"
    unfolding rx_exec_None by blast
  also have "\<dots> \<longleftrightarrow>
      \<not> (\<exists>k ws v. line = k @ 58 # ws @ v \<and> k \<noteq> [] \<and> is_word (hd k) \<and>
        list_all is_word_or_hyphen (tl k) \<and> list_all is_space ws \<and> v \<noteq> [] \<and>
        list_all is_dot v)"
    by (simp only: a)
  finally show ?thesis
    by (simp only: append_Cons append_Nil)
qed



section \<open>The exit code\<close>

text \<open>
  Claim C1, as amended. For every run in which the manifest is read and parses to a
  truthy value, the process ends with code 1 exactly when at least one error was
  recorded or the run ended in an uncaught failure, and with code 0 otherwise.
\<close>

theorem exit_code_of_run:
  assumes "ToBoolean (Some (readJson parse b manifestPath))"
  shows "exit_code (fst (run parse b)) =
    (if (\<exists>e. fst (run parse b) = Threw e) \<or> errors (snd (run parse b)) \<noteq> [] then 1 else 0)"
  by (rule run_exit_code [OF assms])

text \<open>
  The theorem at a directory holding only the manifest \<^verbatim>\<open>{}\<close>, where six errors are
  recorded and the code is 1, and at a conformant manifest beside an empty
  \<^verbatim>\<open>skills\<close> directory, where none is recorded and the code is 0.
\<close>

theorem exit_code_of_run_witness:
  "exit_code (fst (run (only (js ''{}'') (JObj [])) (disk [(manifestPath, File (js ''{}''))]))) = 1
   \<and> errors (snd (run (only (js ''{}'') (JObj [])) (disk [(manifestPath, File (js ''{}''))]))) =
       [js ''plugin.json missing required field: name'',
        js ''plugin.json missing required field: description'',
        js ''plugin.json missing required field: version'',
        js ''plugin.json missing required field: author'',
        js ''plugin.json missing required field: license'',
        js ''skills/ directory is missing'']
   \<and> exit_code (fst (run (only conformant_text conformant)
         (disk [(manifestPath, File conformant_text), ([js ''skills''], Dir [])]))) = 0
   \<and> errors (snd (run (only conformant_text conformant)
         (disk [(manifestPath, File conformant_text), ([js ''skills''], Dir [])]))) = []"
proof -
  have 1: "run (only (js ''{}'') (JObj [])) (disk [(manifestPath, File (js ''{}''))]) =
      (Exited 1, snd (run (only (js ''{}'') (JObj [])) (disk [(manifestPath, File (js ''{}''))])))"
    and 2: "errors (snd (run (only (js ''{}'') (JObj [])) (disk [(manifestPath, File (js ''{}''))]))) =
       [js ''plugin.json missing required field: name'',
        js ''plugin.json missing required field: description'',
        js ''plugin.json missing required field: version'',
        js ''plugin.json missing required field: author'',
        js ''plugin.json missing required field: license'',
        js ''skills/ directory is missing'']"
    by (simp_all add: run_defs js_append [symmetric])
  have 3: "run (only conformant_text conformant)
         (disk [(manifestPath, File conformant_text), ([js ''skills''], Dir [])]) =
      (Returned, snd (run (only conformant_text conformant)
         (disk [(manifestPath, File conformant_text), ([js ''skills''], Dir [])])))"
    and 4: "errors (snd (run (only conformant_text conformant)
         (disk [(manifestPath, File conformant_text), ([js ''skills''], Dir [])]))) = []"
    by (simp_all add: run_defs conformant_def)
  have t1: "ToBoolean (Some (readJson (only (js ''{}'') (JObj [])) (disk [(manifestPath, File (js ''{}''))]) manifestPath))"
    by (simp add: readJson_def readFile_def only_def disk_def)
  have t2: "ToBoolean (Some (readJson (only conformant_text conformant)
         (disk [(manifestPath, File conformant_text), ([js ''skills''], Dir [])]) manifestPath))"
    by (simp add: readJson_def readFile_def only_def disk_def conformant_def)
  have n1: "\<nexists>e. fst (run (only (js ''{}'') (JObj [])) (disk [(manifestPath, File (js ''{}''))])) = Threw e"
    by (subst 1) simp
  have n2: "\<nexists>e. fst (run (only conformant_text conformant)
         (disk [(manifestPath, File conformant_text), ([js ''skills''], Dir [])])) = Threw e"
    by (subst 3) simp
  show ?thesis
    using exit_code_of_run [OF t1] exit_code_of_run [OF t2] n1 n2 2 4 by simp
qed

text \<open>
  Claim C1 as the specification states it, exit code 1 if and only if an error was
  recorded, fails in both directions. With \<^verbatim>\<open>"logo":5\<close> in an otherwise conformant
  manifest \<^verbatim>\<open>path.join\<close> throws, nothing is recorded and the code is 1. With no
  manifest at all the error is recorded, \<^verbatim>\<open>validatePlugin\<close> returns before the
  report, and the process ends with code 0.
\<close>

theorem exit_code_of_run_counterexample:
  "exit_code (fst (run (only logo5_text logo5)
      (disk [(manifestPath, File logo5_text), ([js ''skills''], Dir [])]))) = 1
   \<and> errors (snd (run (only logo5_text logo5)
      (disk [(manifestPath, File logo5_text), ([js ''skills''], Dir [])]))) = []
   \<and> exit_code (fst (run (only conformant_text conformant) (disk [([js ''skills''], Dir [])]))) = 0
   \<and> errors (snd (run (only conformant_text conformant) (disk [([js ''skills''], Dir [])]))) =
       [js ''.cursor-plugin/plugin.json is missing or invalid'']"
  by (simp add: run_defs logo5_def)

section \<open>The manifest cannot be used\<close>

text \<open>
  Claim C2. When \<^verbatim>\<open>.cursor-plugin/plugin.json\<close> is not there as a readable file, or
  \<^verbatim>\<open>JSON.parse\<close> throws on its content, the run records the one error
  \<^verbatim>\<open>.cursor-plugin/plugin.json is missing or invalid\<close> and returns at once: no other
  error, no warning, nothing printed, and the read of the manifest is the only
  filesystem call, so neither the name, nor a required field, nor any of the four
  directories is looked at.
\<close>

theorem manifest_unusable_halts:
  assumes "\<forall>raw. b manifestPath = Some (File raw) \<longrightarrow> parse raw = None"
  shows "run parse b =
           (Returned,
            \<lparr>errors = [js ''.cursor-plugin/plugin.json is missing or invalid''],
             warnings = [], printed = [], fscalls = [ReadFile manifestPath]\<rparr>)"
proof -
  have "readJson parse b manifestPath = JNull"
    using assms by (auto simp: readJson_def readFile_def split: option.splits fsnode.splits)
  then show ?thesis
    by (simp add: run_def validatePlugin_def Let_def error_def calls_def initial_def)
qed

text \<open>
  The theorem at a directory with no manifest, and at one whose manifest holds the
  single character \<^verbatim>\<open>{\<close> while every other path is an empty directory.
\<close>

theorem manifest_unusable_halts_witness:
  "run (\<lambda>raw. None) (\<lambda>p. None) =
     (Returned,
      \<lparr>errors = [js ''.cursor-plugin/plugin.json is missing or invalid''],
       warnings = [], printed = [], fscalls = [ReadFile manifestPath]\<rparr>)
   \<and> run (\<lambda>raw. None) (\<lambda>p. if p = manifestPath then Some (File (js ''{'')) else Some (Dir [])) =
     (Returned,
      \<lparr>errors = [js ''.cursor-plugin/plugin.json is missing or invalid''],
       warnings = [], printed = [], fscalls = [ReadFile manifestPath]\<rparr>)"
  using manifest_unusable_halts [of "\<lambda>p. None" "\<lambda>raw. None"]
    manifest_unusable_halts
      [of "\<lambda>p. if p = manifestPath then Some (File (js ''{'')) else Some (Dir [])" "\<lambda>raw. None"]
  by simp

section \<open>The name of the plugin\<close>




section \<open>The required fields\<close>



section \<open>The four directories\<close>

text \<open>
  Claim C6. When \<^verbatim>\<open>skills\<close> is absent, the skills check records the one error
  \<^verbatim>\<open>skills/ directory is missing\<close> and the run goes on with the checks of
  \<^verbatim>\<open>rules\<close>, \<^verbatim>\<open>commands\<close> and \<^verbatim>\<open>agents\<close>; what these three do is the same
  on every directory that agrees with this one outside \<^verbatim>\<open>skills\<close>, and what they add
  is the same from every state. When \<^verbatim>\<open>rules\<close>, \<^verbatim>\<open>commands\<close> or \<^verbatim>\<open>agents\<close> is
  absent, its check makes the one \<^verbatim>\<open>access\<close> call and records nothing. For an entry
  of \<^verbatim>\<open>skills\<close> with no \<^verbatim>\<open>SKILL.md\<close>, the one error naming the skill is recorded
  and the file is not read, so no frontmatter is parsed, and the loop goes on.
\<close>

theorem skills_required_others_optional:
  "(\<not> exists b [js ''skills''] \<longrightarrow>
      check_skills b st =
        (None, error (js ''skills/ directory is missing'') (calls (Access [js ''skills'']) st)) \<and>
      directories b st =
        after_skills b (error (js ''skills/ directory is missing'') (calls (Access [js ''skills'']) st)))
   \<and> ((\<forall>p. take 1 p \<noteq> [js ''skills''] \<longrightarrow> b' p = b p) \<longrightarrow> after_skills b' = after_skills b)
   \<and> after_skills b st = (fst (after_skills b initial), plus_state st (snd (after_skills b initial)))
   \<and> (\<not> exists b [js ''rules''] \<longrightarrow> check_rules b st = (None, calls (Access [js ''rules'']) st))
   \<and> (\<not> exists b [js ''commands''] \<longrightarrow>
        check_commands b st = (None, calls (Access [js ''commands'']) st))
   \<and> (\<not> exists b [js ''agents''] \<longrightarrow> check_agents b st = (None, calls (Access [js ''agents'']) st))
   \<and> (\<not> exists b [js ''skills'', skill, js ''SKILL.md''] \<longrightarrow>
        check_skill b skill st =
          (None,
           error (js ''Skill '' @ skill @ js '' is missing SKILL.md'')
             (calls (Access [js ''skills'', skill, js ''SKILL.md'']) st)))"
proof (intro conjI impI)
  assume "\<not> exists b [js ''skills'']"
  then show s: "check_skills b st =
        (None, error (js ''skills/ directory is missing'') (calls (Access [js ''skills'']) st))"
    by (simp add: check_skills_def Let_def)
  then show "directories b st =
        after_skills b (error (js ''skills/ directory is missing'') (calls (Access [js ''skills'']) st))"
    by (simp add: directories_def then_do_def)
next
  assume "\<forall>p. take 1 p \<noteq> [js ''skills''] \<longrightarrow> b' p = b p"
  then show "after_skills b' = after_skills b"
    by (intro after_skills_cong) simp
next
  show "after_skills b st = (fst (after_skills b initial), plus_state st (snd (after_skills b initial)))"
    by (rule appendsD [OF appends_after_skills])
next
  assume "\<not> exists b [js ''rules'']"
  then show "check_rules b st = (None, calls (Access [js ''rules'']) st)"
    by (simp add: check_rules_def Let_def)
next
  assume "\<not> exists b [js ''commands'']"
  then show "check_commands b st = (None, calls (Access [js ''commands'']) st)"
    by (simp add: check_commands_def Let_def)
next
  assume "\<not> exists b [js ''agents'']"
  then show "check_agents b st = (None, calls (Access [js ''agents'']) st)"
    by (simp add: check_agents_def Let_def)
next
  assume "\<not> exists b [js ''skills'', skill, js ''SKILL.md'']"
  then show "check_skill b skill st =
          (None,
           error (js ''Skill '' @ skill @ js '' is missing SKILL.md'')
             (calls (Access [js ''skills'', skill, js ''SKILL.md'']) st))"
    by (simp add: check_skill_def Let_def)
qed

text \<open>
  The theorem at a directory holding only the conformant manifest, and at the same
  directory with a \<^verbatim>\<open>skills\<close> whose one entry \<^verbatim>\<open>typescript\<close> has no \<^verbatim>\<open>SKILL.md\<close>.
\<close>

theorem skills_required_others_optional_witness:
  "check_skills (disk [(manifestPath, File conformant_text)]) initial =
     (None, error (js ''skills/ directory is missing'') (calls (Access [js ''skills'']) initial))
   \<and> after_skills (disk [(manifestPath, File conformant_text), ([js ''skills''], Dir [js ''typescript''])]) =
     after_skills (disk [(manifestPath, File conformant_text)])
   \<and> check_rules (disk [(manifestPath, File conformant_text)]) initial =
     (None, calls (Access [js ''rules'']) initial)
   \<and> check_commands (disk [(manifestPath, File conformant_text)]) initial =
     (None, calls (Access [js ''commands'']) initial)
   \<and> check_agents (disk [(manifestPath, File conformant_text)]) initial =
     (None, calls (Access [js ''agents'']) initial)
   \<and> errors (snd (run (only conformant_text conformant) (disk [(manifestPath, File conformant_text)]))) =
     [js ''skills/ directory is missing'']
   \<and> fscalls (snd (run (only conformant_text conformant) (disk [(manifestPath, File conformant_text)]))) =
     [ReadFile manifestPath, Access [js ''skills''], Access [js ''rules''],
      Access [js ''commands''], Access [js ''agents'']]
   \<and> check_skill (disk [(manifestPath, File conformant_text), ([js ''skills''], Dir [js ''typescript''])])
       (js ''typescript'') initial =
     (None, error (js ''Skill typescript is missing SKILL.md'')
        (calls (Access [js ''skills'', js ''typescript'', js ''SKILL.md'']) initial))
   \<and> snd (run (only conformant_text conformant)
       (disk [(manifestPath, File conformant_text), ([js ''skills''], Dir [js ''typescript''])])) =
     \<lparr>errors = [js ''Skill typescript is missing SKILL.md''], warnings = [],
      printed = [js ''Validating plugin: my-plugin'' @ [LF], js ''  Skills: 1 found'', [],
                 js ''Errors (1):'', js ''  '' @ [10007] @ js '' Skill typescript is missing SKILL.md'', []],
      fscalls = [ReadFile manifestPath, Access [js ''skills''], Readdir [js ''skills''],
                 Access [js ''skills'', js ''typescript'', js ''SKILL.md''],
                 Access [js ''rules''], Access [js ''commands''], Access [js ''agents'']]\<rparr>"
proof -
  let ?b = "disk [(manifestPath, File conformant_text)]"
  let ?b' = "disk [(manifestPath, File conformant_text), ([js ''skills''], Dir [js ''typescript''])]"
  have 1: "\<not> exists ?b [js ''skills'']" "\<not> exists ?b [js ''rules'']"
    "\<not> exists ?b [js ''commands'']" "\<not> exists ?b [js ''agents'']"
    "\<not> exists ?b' [js ''skills'', js ''typescript'', js ''SKILL.md'']"
    by (simp_all add: exists_def disk_def manifestPath_def)
  have 2: "\<forall>p. take 1 p \<noteq> [js ''skills''] \<longrightarrow> ?b' p = ?b p"
    by (auto simp: disk_def)
  have 3: "errors (snd (run (only conformant_text conformant) ?b)) = [js ''skills/ directory is missing'']"
    "fscalls (snd (run (only conformant_text conformant) ?b)) =
     [ReadFile manifestPath, Access [js ''skills''], Access [js ''rules''],
      Access [js ''commands''], Access [js ''agents'']]"
    by (simp_all add: run_defs conformant_def)
  have 4: "snd (run (only conformant_text conformant) ?b') =
     \<lparr>errors = [js ''Skill typescript is missing SKILL.md''], warnings = [],
      printed = [js ''Validating plugin: my-plugin'' @ [LF], js ''  Skills: 1 found'', [],
                 js ''Errors (1):'', js ''  '' @ [10007] @ js '' Skill typescript is missing SKILL.md'', []],
      fscalls = [ReadFile manifestPath, Access [js ''skills''], Readdir [js ''skills''],
                 Access [js ''skills'', js ''typescript'', js ''SKILL.md''],
                 Access [js ''rules''], Access [js ''commands''], Access [js ''agents'']]\<rparr>"
    by (simp add: run_defs conformant_def) (simp add: js_def)
  show ?thesis
    using skills_required_others_optional [of ?b initial ?b' "js ''typescript''"]
      skills_required_others_optional [of ?b' initial ?b' "js ''typescript''"] 1 2 3 4
    by (simp add: js_append [symmetric])
qed

section \<open>The logo\<close>

text \<open>
  Claim C7, as amended. When the manifest declares a logo, a string that is not empty,
  and nothing is found at that path under the root, the logo check records the one
  warning \<^verbatim>\<open>Logo file not found:\<close> with the path, and no error. The report decides
  between \<^verbatim>\<open>process.exit(1)\<close> and returning by the errors alone. A run that does not
  end in an uncaught failure holds exactly that one warning and ends with code 0 when
  no error was recorded, with code 1 otherwise.
\<close>

theorem missing_logo_warns:
  assumes pj: "pj = readJson parse b manifestPath"
    and l: "js_get pj (js ''logo'') = Some (JStr logo)" and ne: "logo \<noteq> []"
    and x: "\<not> exists b [logo]"
  shows "check_logo b pj st =
      (None, warn (js ''Logo file not found: '' @ logo) (calls (Access [logo]) st))
    \<and> fst (report st) = (if errors st \<noteq> [] then Exited 1 else Returned)
    \<and> ((\<forall>e. fst (run parse b) \<noteq> Threw e) \<longrightarrow>
         warnings (snd (run parse b)) = [js ''Logo file not found: '' @ logo] \<and>
         exit_code (fst (run parse b)) = (if errors (snd (run parse b)) = [] then 0 else 1))"
proof (intro conjI impI)
  show "check_logo b pj st =
      (None, warn (js ''Logo file not found: '' @ logo) (calls (Access [logo]) st))"
    using l ne x by (simp add: check_logo_def Let_def)
  show "fst (report st) = (if errors st \<noteq> [] then Exited 1 else Returned)"
    by (rule report_outcome)
next
  assume nt: "\<forall>e. fst (run parse b) \<noteq> Threw e"
  have t: "ToBoolean (Some pj)"
    using l by (cases pj) simp_all
  then have t': "ToBoolean (Some (readJson parse b manifestPath))"
    using pj by simp
  obtain name where n: "ToString (js_get pj (js ''name'')) = Inr name"
  proof (cases "ToString (js_get pj (js ''name''))")
    case (Inl e)
    then have "run parse b = (Threw e, calls (ReadFile manifestPath) initial)"
      using run_truthy [OF t'] checks_throws [of pj e b] pj by simp
    with nt show ?thesis by simp
  next
    case (Inr name)
    then show ?thesis by (rule that)
  qed
  have "then_do (check_logo b pj) (directories b) initial =
      (fst (directories b initial),
       plus_state initial (plus_state (snd (check_logo b pj initial)) (snd (directories b initial))))"
    using then_do_appends [OF appends_check_logo appends_directories, of b pj b initial]
      check_logo_string [OF l ne, of b initial]
    by simp
  moreover have "warnings (snd (directories b initial)) = []"
    using appends_warnings [OF appends_directories, of b] by (simp add: list_all_iff)
  ultimately have "warnings (snd (then_do (check_logo b pj) (directories b) initial)) =
      [js ''Logo file not found: '' @ logo]"
    using check_logo_string [OF l ne, of b initial] x by simp
  then show "warnings (snd (run parse b)) = [js ''Logo file not found: '' @ logo]"
    using run_eq(2) [OF pj t n] by simp
  show "exit_code (fst (run parse b)) = (if errors (snd (run parse b)) = [] then 0 else 1)"
    using run_exit_code [OF t'] nt by simp
qed


text \<open>
  The theorem at the conformant manifest with \<^verbatim>\<open>"logo":"logo.png"\<close>, beside an empty
  \<^verbatim>\<open>skills\<close> directory and no such file: one warning, no error, code 0.
\<close>

theorem missing_logo_warns_witness:
  "check_logo (disk [(manifestPath, File with_logo_text), ([js ''skills''], Dir [])]) with_logo initial =
      (None, warn (js ''Logo file not found: logo.png'') (calls (Access [js ''logo.png'']) initial))
   \<and> warnings (snd (run (only with_logo_text with_logo)
        (disk [(manifestPath, File with_logo_text), ([js ''skills''], Dir [])]))) =
      [js ''Logo file not found: logo.png'']
   \<and> errors (snd (run (only with_logo_text with_logo)
        (disk [(manifestPath, File with_logo_text), ([js ''skills''], Dir [])]))) = []
   \<and> exit_code (fst (run (only with_logo_text with_logo)
        (disk [(manifestPath, File with_logo_text), ([js ''skills''], Dir [])]))) = 0"
proof -
  let ?b = "disk [(manifestPath, File with_logo_text), ([js ''skills''], Dir [])]"
  have pj: "with_logo = readJson (only with_logo_text with_logo) ?b manifestPath"
    by (simp add: readJson_def readFile_def only_def disk_def)
  have l: "js_get with_logo (js ''logo'') = Some (JStr (js ''logo.png''))"
    by (simp add: with_logo_def)
  have ne: "js ''logo.png'' \<noteq> []"
    by simp
  have x: "\<not> exists ?b [js ''logo.png'']"
    by (simp add: exists_def disk_def manifestPath_def)
  have r: "fst (run (only with_logo_text with_logo) ?b) = Returned"
    and e: "errors (snd (run (only with_logo_text with_logo) ?b)) = []"
    by (simp_all add: run_defs with_logo_def)
  show ?thesis
    using missing_logo_warns [OF pj l ne x, of initial] r e
    by (simp add: js_append [symmetric])
qed

text \<open>
  Claim C7 as the specification states it promises code 0 to every run with that
  warning and no recorded error. With \<^verbatim>\<open>rules\<close> a file instead of a directory,
  \<^verbatim>\<open>exists\<close> holds, \<^verbatim>\<open>readdir\<close> rejects, and the run holds the warning, no error, and
  ends with code 1.
\<close>

theorem missing_logo_warns_counterexample:
  "warnings (snd (run (only with_logo_text with_logo)
      (disk [(manifestPath, File with_logo_text), ([js ''skills''], Dir []), ([js ''rules''], File [])]))) =
      [js ''Logo file not found: logo.png'']
   \<and> errors (snd (run (only with_logo_text with_logo)
      (disk [(manifestPath, File with_logo_text), ([js ''skills''], Dir []), ([js ''rules''], File [])]))) = []
   \<and> exit_code (fst (run (only with_logo_text with_logo)
      (disk [(manifestPath, File with_logo_text), ([js ''skills''], Dir []), ([js ''rules''], File [])]))) = 1"
  by (simp add: run_defs with_logo_def js_append [symmetric])

section \<open>Present but falsy\<close>

text \<open>
  Claim C10. The presence of a required key is tested by truthiness. A manifest field
  among the five whose value is the empty string, 0, \<^verbatim>\<open>false\<close> or \<^verbatim>\<open>null\<close> is
  recorded as missing, and the loop over the required fields does on that manifest
  what it does on the manifest with the key taken out. A frontmatter key \<^verbatim>\<open>name\<close> or
  \<^verbatim>\<open>description\<close> whose value is the empty string fails the test, the checks of a
  skill, a rule, a command and an agent do what they do with the key absent, and the
  error naming the key is recorded.
\<close>

theorem falsy_is_missing:
  "(map_of kvs f = Some v \<and> v \<in> {JStr [], JNum (js ''0''), JBool False, JNull} \<and>
    f \<in> set required_fields \<longrightarrow>
      check_field (JObj kvs) f st =
        (None, error (js ''plugin.json missing required field: '' @ f) st) \<and>
      check_field (JObj (filter (\<lambda>kv. fst kv \<noteq> f) kvs)) f st =
        (None, error (js ''plugin.json missing required field: '' @ f) st) \<and>
      check_fields (JObj kvs) st = check_fields (JObj (filter (\<lambda>kv. fst kv \<noteq> f) kvs)) st)
   \<and> (fm k = Some [] \<and> k \<in> {js ''name'', js ''description''} \<longrightarrow>
      \<not> field_truthy fm k \<and>
      check_skill_frontmatter x (Some fm) st = check_skill_frontmatter x (Some (fm(k := None))) st \<and>
      check_rule_frontmatter x (Some fm) st = check_rule_frontmatter x (Some (fm(k := None))) st \<and>
      check_command_frontmatter x (Some fm) st =
        check_command_frontmatter x (Some (fm(k := None))) st \<and>
      check_agent_frontmatter x (Some fm) st = check_agent_frontmatter x (Some (fm(k := None))) st)
   \<and> (fm (js ''name'') = Some [] \<longrightarrow>
      js ''Skill '' @ x @ js ''/SKILL.md missing name in frontmatter''
        \<in> set (errors (check_skill_frontmatter x (Some fm) st)) \<and>
      js ''Command '' @ x @ js '' missing name in frontmatter''
        \<in> set (errors (check_command_frontmatter x (Some fm) st)) \<and>
      js ''Agent '' @ x @ js '' missing name in frontmatter''
        \<in> set (errors (check_agent_frontmatter x (Some fm) st)))
   \<and> (fm (js ''description'') = Some [] \<longrightarrow>
      js ''Skill '' @ x @ js ''/SKILL.md missing description in frontmatter''
        \<in> set (errors (check_skill_frontmatter x (Some fm) st)) \<and>
      js ''Rule '' @ x @ js '' missing description in frontmatter''
        \<in> set (errors (check_rule_frontmatter x (Some fm) st)) \<and>
      js ''Command '' @ x @ js '' missing description in frontmatter''
        \<in> set (errors (check_command_frontmatter x (Some fm) st)) \<and>
      js ''Agent '' @ x @ js '' missing description in frontmatter''
        \<in> set (errors (check_agent_frontmatter x (Some fm) st)))"
proof (intro conjI impI)
  assume h: "map_of kvs f = Some v \<and> v \<in> {JStr [], JNum (js ''0''), JBool False, JNull} \<and>
    f \<in> set required_fields"
  then have falsy: "\<not> ToBoolean (js_get (JObj kvs) f)"
    by auto
  then show "check_field (JObj kvs) f st =
        (None, error (js ''plugin.json missing required field: '' @ f) st)"
    by (simp add: check_field_def)
  show "check_field (JObj (filter (\<lambda>kv. fst kv \<noteq> f) kvs)) f st =
        (None, error (js ''plugin.json missing required field: '' @ f) st)"
    by (simp add: check_field_def map_of_without)
  have "ToBoolean (js_get (JObj (filter (\<lambda>kv. fst kv \<noteq> f) kvs)) g) = ToBoolean (js_get (JObj kvs) g)" for g
    using falsy by (simp add: map_of_without)
  then show "check_fields (JObj kvs) st = check_fields (JObj (filter (\<lambda>kv. fst kv \<noteq> f) kvs)) st"
    by (simp add: check_fields_eq)
next
  assume h: "fm k = Some [] \<and> k \<in> {js ''name'', js ''description''}"
  then show "\<not> field_truthy fm k"
    by (simp add: field_truthy_def)
  have same: "field_truthy (fm(k := None)) g = field_truthy fm g" for g
    using h by (simp add: field_truthy_def)
  show "check_skill_frontmatter x (Some fm) st = check_skill_frontmatter x (Some (fm(k := None))) st"
    by (simp add: check_skill_frontmatter_def same)
  show "check_rule_frontmatter x (Some fm) st = check_rule_frontmatter x (Some (fm(k := None))) st"
    by (simp add: check_rule_frontmatter_def same)
  show "check_command_frontmatter x (Some fm) st =
        check_command_frontmatter x (Some (fm(k := None))) st"
    by (simp add: check_command_frontmatter_def same)
  show "check_agent_frontmatter x (Some fm) st = check_agent_frontmatter x (Some (fm(k := None))) st"
    by (simp add: check_agent_frontmatter_def same)
next
  assume "fm (js ''name'') = Some []"
  then have n: "\<not> field_truthy fm (js ''name'')"
    by (simp add: field_truthy_def)
  show "js ''Skill '' @ x @ js ''/SKILL.md missing name in frontmatter''
        \<in> set (errors (check_skill_frontmatter x (Some fm) st))"
    using n by (simp add: check_skill_frontmatter_def Let_def error_def)
  show "js ''Command '' @ x @ js '' missing name in frontmatter''
        \<in> set (errors (check_command_frontmatter x (Some fm) st))"
    using n by (simp add: check_command_frontmatter_def Let_def error_def)
  show "js ''Agent '' @ x @ js '' missing name in frontmatter''
        \<in> set (errors (check_agent_frontmatter x (Some fm) st))"
    using n by (simp add: check_agent_frontmatter_def Let_def error_def)
next
  assume "fm (js ''description'') = Some []"
  then have n: "\<not> field_truthy fm (js ''description'')"
    by (simp add: field_truthy_def)
  show "js ''Skill '' @ x @ js ''/SKILL.md missing description in frontmatter''
        \<in> set (errors (check_skill_frontmatter x (Some fm) st))"
    using n by (simp add: check_skill_frontmatter_def Let_def error_def)
  show "js ''Rule '' @ x @ js '' missing description in frontmatter''
        \<in> set (errors (check_rule_frontmatter x (Some fm) st))"
    using n by (simp add: check_rule_frontmatter_def Let_def error_def)
  show "js ''Command '' @ x @ js '' missing description in frontmatter''
        \<in> set (errors (check_command_frontmatter x (Some fm) st))"
    using n by (simp add: check_command_frontmatter_def Let_def error_def)
  show "js ''Agent '' @ x @ js '' missing description in frontmatter''
        \<in> set (errors (check_agent_frontmatter x (Some fm) st))"
    using n by (simp add: check_agent_frontmatter_def Let_def error_def)
qed

text \<open>
  The theorem at a manifest whose licence is the empty string, and at the frontmatter
  of a command whose \<^verbatim>\<open>name:\<close> is followed by two spaces.
\<close>

theorem falsy_is_missing_witness:
  "check_field (JObj [(js ''name'', JStr (js ''my-plugin'')), (js ''license'', JStr [])]) (js ''license'') initial =
     (None, error (js ''plugin.json missing required field: license'') initial)
   \<and> check_fields (JObj [(js ''name'', JStr (js ''my-plugin'')), (js ''license'', JStr [])]) initial =
     check_fields (JObj [(js ''name'', JStr (js ''my-plugin''))]) initial
   \<and> map_option (\<lambda>fm. fm (js ''name'')) (parseFrontmatter blank_name_doc) = Some (Some [])
   \<and> check_command_frontmatter (js ''audit.md'') (parseFrontmatter blank_name_doc) initial =
     error (js ''Command audit.md missing name in frontmatter'') initial
   \<and> check_command_frontmatter (js ''audit.md'')
       (map_option (\<lambda>fm. fm(js ''name'' := None)) (parseFrontmatter blank_name_doc)) initial =
     error (js ''Command audit.md missing name in frontmatter'') initial"
proof -
  obtain fm where fm: "parseFrontmatter blank_name_doc = Some fm"
    and n: "fm (js ''name'') = Some []" and d: "fm (js ''description'') = Some (js ''Audit'')"
    by (simp add: blank_name_doc_def fm_defs)
  have k: "js ''name'' \<in> {js ''name'', js ''description''}"
    by simp
  have m: "map_of [(js ''name'', JStr (js ''my-plugin'')), (js ''license'', JStr [])] (js ''license'') = Some (JStr [])
      \<and> JStr [] \<in> {JStr [], JNum (js ''0''), JBool False, JNull}
      \<and> js ''license'' \<in> set required_fields"
    by (simp add: required_fields_def)
  have e: "check_command_frontmatter (js ''audit.md'') (Some fm) initial =
     error (js ''Command audit.md missing name in frontmatter'') initial"
    using n d by (simp add: check_command_frontmatter_def field_truthy_def js_append [symmetric])
  show ?thesis
    using falsy_is_missing [of "[(js ''name'', JStr (js ''my-plugin'')), (js ''license'', JStr [])]"
        "js ''license''" "JStr []" initial fm "js ''name''" "js ''audit.md''"] m n k e fm
    by (simp add: js_append [symmetric])
qed

section \<open>Frontmatter\<close>

text \<open>
  Claim C9. \<^verbatim>\<open>parseFrontmatter\<close> returns an object exactly when the text, with every
  CR LF made LF, starts with \<^verbatim>\<open>---\<close> and a line feed and holds the five code units
  line feed, \<^verbatim>\<open>---\<close>, line feed at some index from 4 on; otherwise it returns
  \<^verbatim>\<open>null\<close>. So the text that is an opening line followed at once by a closing
  line, and the text whose closing \<^verbatim>\<open>---\<close> has no line feed after it, both give
  \<^verbatim>\<open>null\<close>, and a skill with either is reported as missing its frontmatter, where
  frontmatter with no fields would be reported as missing its name and its description.
\<close>

theorem closing_delimiter_needed:
  "(parseFrontmatter content \<noteq> None \<longleftrightarrow>
      startsWith (replace_crlf content) (js ''---'' @ [LF]) \<and>
      (\<exists>k \<ge> 4. take 5 (drop k (replace_crlf content)) = [LF] @ js ''---'' @ [LF]))
   \<and> parseFrontmatter empty_block_doc = None
   \<and> parseFrontmatter unterminated_doc = None
   \<and> check_skill_frontmatter skill (parseFrontmatter empty_block_doc) st =
       error (js ''Skill '' @ skill @ js ''/SKILL.md is missing frontmatter'') st
   \<and> check_skill_frontmatter skill (parseFrontmatter unterminated_doc) st =
       error (js ''Skill '' @ skill @ js ''/SKILL.md is missing frontmatter'') st
   \<and> check_skill_frontmatter skill (Some Map.empty) st =
       error (js ''Skill '' @ skill @ js ''/SKILL.md missing description in frontmatter'')
         (error (js ''Skill '' @ skill @ js ''/SKILL.md missing name in frontmatter'') st)"
proof -
  have 1: "parseFrontmatter empty_block_doc = None"
    by (simp add: empty_block_doc_def fm_defs)
  have 2: "parseFrontmatter unterminated_doc = None"
    by (simp add: unterminated_doc_def fm_defs)
  show ?thesis
    unfolding 1 2 using parseFrontmatter_Some_iff [of content]
    by (simp add: check_skill_frontmatter_def field_truthy_def)
qed

text \<open>
  What the extraction does on every document. It gives an object only if the text, line
  endings made LF, begins with a line of three hyphens and holds a later line of three
  hyphens on its own. The block between them, up to the first such line, is split at the
  line feeds. A line made of a key (a word character, then word characters and hyphens),
  a colon, white space and a value that is not empty and holds no line terminator is
  assigned under its key, with everything after the colon trimmed; the assignment has its
  effect for every key but \<^verbatim>\<open>__proto__\<close>. Every other line is ignored. A document whose
  text does not begin with such a line yields \<^verbatim>\<open>null\<close>, and as a \<^verbatim>\<open>SKILL.md\<close> it
  produces the one error of missing frontmatter.
\<close>

lemma parseFrontmatter_does:
  "(parseFrontmatter content \<noteq> None \<longrightarrow>
      startsWith (replace_crlf content) (js ''---'' @ [LF]) \<and>
      (\<exists>k \<ge> 4. take 5 (drop k (replace_crlf content)) = [LF] @ js ''---'' @ [LF]))
   \<and> (parseFrontmatter content = Some fm \<longrightarrow>
      (\<exists>c \<ge> 4.
         take 5 (drop c (replace_crlf content)) = [LF] @ js ''---'' @ [LF] \<and>
         (\<forall>k. 4 \<le> k \<and> k < c \<longrightarrow>
            take 5 (drop k (replace_crlf content)) \<noteq> [LF] @ js ''---'' @ [LF]) \<and>
         fm = foldl parse_line Map.empty
                (split_lf (take (c - 4) (drop 4 (replace_crlf content))))))
   \<and> concat (map (\<lambda>l. l @ [LF]) (split_lf block)) = block @ [LF]
   \<and> (\<forall>l \<in> set (split_lf block). LF \<notin> set l)
   \<and> (line = k @ [58] @ ws @ v \<and> k \<noteq> [] \<and> is_word (hd k) \<and>
      list_all is_word_or_hyphen (tl k) \<and> list_all is_space ws \<and> v \<noteq> [] \<and>
      list_all is_dot v \<longrightarrow>
        parse_line fs line = (if k = js ''__proto__'' then fs else fs(k \<mapsto> trim (ws @ v))))
   \<and> ((\<nexists>k ws v. line = k @ [58] @ ws @ v \<and> k \<noteq> [] \<and> is_word (hd k) \<and>
         list_all is_word_or_hyphen (tl k) \<and> list_all is_space ws \<and> v \<noteq> [] \<and>
         list_all is_dot v) \<longrightarrow>
        parse_line fs line = fs)
   \<and> (\<not> startsWith (replace_crlf content) (js ''---'' @ [LF]) \<longrightarrow>
        parseFrontmatter content = None \<and>
        (b [js ''skills'', skill, js ''SKILL.md''] = Some (File content) \<longrightarrow>
           check_skill b skill st =
             (None,
              error (js ''Skill '' @ skill @ js ''/SKILL.md is missing frontmatter'')
                (calls (ReadFile [js ''skills'', skill, js ''SKILL.md''])
                   (calls (Access [js ''skills'', skill, js ''SKILL.md'']) st)))))"
proof (intro conjI impI ballI)
  assume "parseFrontmatter content \<noteq> None"
  then show "startsWith (replace_crlf content) (js ''---'' @ [LF])"
    and "\<exists>k \<ge> 4. take 5 (drop k (replace_crlf content)) = [LF] @ js ''---'' @ [LF]"
    using parseFrontmatter_Some_iff [of content] by blast+
next
  assume "parseFrontmatter content = Some fm"
  then show "\<exists>c \<ge> 4.
         take 5 (drop c (replace_crlf content)) = [LF] @ js ''---'' @ [LF] \<and>
         (\<forall>k. 4 \<le> k \<and> k < c \<longrightarrow>
            take 5 (drop k (replace_crlf content)) \<noteq> [LF] @ js ''---'' @ [LF]) \<and>
         fm = foldl parse_line Map.empty
                (split_lf (take (c - 4) (drop 4 (replace_crlf content))))"
    by (rule parseFrontmatter_Some)
next
  show "concat (map (\<lambda>l. l @ [LF]) (split_lf block)) = block @ [LF]"
    by (rule split_lf_join)
next
  fix l assume "l \<in> set (split_lf block)"
  then show "LF \<notin> set l"
    by (rule split_lf_lines)
next
  assume "line = k @ [58] @ ws @ v \<and> k \<noteq> [] \<and> is_word (hd k) \<and>
      list_all is_word_or_hyphen (tl k) \<and> list_all is_space ws \<and> v \<noteq> [] \<and>
      list_all is_dot v"
  then have "parse_line fs line = assign_field fs k (trim (ws @ v))"
    using parse_line_match [of line k ws v fs] by simp
  then show "parse_line fs line = (if k = js ''__proto__'' then fs else fs(k \<mapsto> trim (ws @ v)))"
    by (simp add: assign_field_def)
next
  assume "\<nexists>k ws v. line = k @ [58] @ ws @ v \<and> k \<noteq> [] \<and> is_word (hd k) \<and>
         list_all is_word_or_hyphen (tl k) \<and> list_all is_space ws \<and> v \<noteq> [] \<and>
         list_all is_dot v"
  then show "parse_line fs line = fs"
    using parse_line_other [of line fs] by simp
next
  assume n: "\<not> startsWith (replace_crlf content) (js ''---'' @ [LF])"
  then show p: "parseFrontmatter content = None"
    using parseFrontmatter_Some_iff [of content] by blast
  assume "b [js ''skills'', skill, js ''SKILL.md''] = Some (File content)"
  then show "check_skill b skill st =
             (None,
              error (js ''Skill '' @ skill @ js ''/SKILL.md is missing frontmatter'')
                (calls (ReadFile [js ''skills'', skill, js ''SKILL.md''])
                   (calls (Access [js ''skills'', skill, js ''SKILL.md'']) st)))"
    using p by (simp add: check_skill_def check_skill_frontmatter_def Let_def exists_def readFile_def)
qed

text \<open>
  The lemma at the head of \<^verbatim>\<open>commands/audit.md\<close>, at a line with white space around
  its value, at a continuation line, and at a \<^verbatim>\<open>SKILL.md\<close> that starts with a heading.
\<close>

lemma parseFrontmatter_does_at_documents:
  "startsWith (replace_crlf audit_doc) (js ''---'' @ [LF])
   \<and> map_option (\<lambda>fm. (fm (js ''name''), fm (js ''description''))) (parseFrontmatter audit_doc) =
       Some (Some (js ''audit''),
             Some (js ''Audit the current codebase for TypeScript best practice violations''))
   \<and> parse_line Map.empty (js ''name:  audit '') = [js ''name'' \<mapsto> js ''audit'']
   \<and> parse_line Map.empty (js ''  - more'') = Map.empty
   \<and> parseFrontmatter plain_doc = None
   \<and> check_skill (disk [([js ''skills'', js ''typescript'', js ''SKILL.md''], File plain_doc)])
         (js ''typescript'') initial =
       (None,
        error (js ''Skill typescript/SKILL.md is missing frontmatter'')
          (calls (ReadFile [js ''skills'', js ''typescript'', js ''SKILL.md''])
             (calls (Access [js ''skills'', js ''typescript'', js ''SKILL.md'']) initial)))"
proof -
  let ?b = "disk [([js ''skills'', js ''typescript'', js ''SKILL.md''], File plain_doc)]"
  have a: "map_option (\<lambda>fm. (fm (js ''name''), fm (js ''description''))) (parseFrontmatter audit_doc) =
       Some (Some (js ''audit''),
             Some (js ''Audit the current codebase for TypeScript best practice violations''))"
    by (simp add: audit_doc_def fm_defs)
  then have some: "parseFrontmatter audit_doc \<noteq> None"
    by auto
  have line: "js ''name:  audit '' = js ''name'' @ [58] @ js ''  '' @ js ''audit '' \<and> js ''name'' \<noteq> [] \<and>
      is_word (hd (js ''name'')) \<and> list_all is_word_or_hyphen (tl (js ''name'')) \<and>
      list_all is_space (js ''  '') \<and> js ''audit '' \<noteq> [] \<and> list_all is_dot (js ''audit '')"
    by (simp add: js_def is_word_def is_word_or_hyphen_def is_space_def is_dot_def
        is_line_terminator_def)
  have t: "trim (js ''  '' @ js ''audit '') = js ''audit''"
    by (simp add: trim_def js_def is_space_def)
  have "rx_exec fieldPattern (js ''  - more'') = None"
    by (simp add: fm_defs)
  then have other0: "\<nexists>k ws v. js ''  - more'' = k @ [58] @ ws @ v \<and> k \<noteq> [] \<and> is_word (hd k) \<and>
         list_all is_word_or_hyphen (tl k) \<and> list_all is_space ws \<and> v \<noteq> [] \<and>
         list_all is_dot v"
    using field_unmatched [of "js ''  - more''"] by blast
  note other = other0
  have plain: "\<not> startsWith (replace_crlf plain_doc) (js ''---'' @ [LF])"
    by (simp add: plain_doc_def startsWith_def js_def LF_def)
  have node: "?b [js ''skills'', js ''typescript'', js ''SKILL.md''] = Some (File plain_doc)"
    by (simp add: disk_def)
  show ?thesis
    using parseFrontmatter_does [of audit_doc _ _ "js ''name:  audit ''" "js ''name''" "js ''  ''"
        "js ''audit ''" Map.empty ?b "js ''typescript''" initial]
      parseFrontmatter_does [of plain_doc _ _ "js ''  - more''" _ _ _ Map.empty ?b
        "js ''typescript''" initial]
      a some line t other plain node
    by (simp add: js_append [symmetric])
qed

text \<open>
  Claim C3. The specification has every line that matches \<^verbatim>\<open>key: value\<close> syntax captured
  under its key with the value trimmed. The source means to do so, assigning
  \<^verbatim>\<open>fields[match[1]]\<close> for every matching line, and misses one key by building
  \<^verbatim>\<open>fields\<close> as an object literal: the line \<^verbatim>\<open>__proto__: x\<close> matches, with that key and
  that value, and the fields of the document holding it are empty, where the document
  holding \<^verbatim>\<open>constructor: x\<close> has its line captured.
\<close>

theorem frontmatter_proto_dropped:
  "rx_exec fieldPattern (js ''__proto__: x'') = Some [js ''__proto__'', js ''x'']
   \<and> parseFrontmatter proto_doc = Some Map.empty
   \<and> map_option (\<lambda>fm. fm (js ''constructor'')) (parseFrontmatter constructor_doc) =
       Some (Some (js ''x''))"
  by (simp add: proto_doc_def constructor_doc_def fm_defs)

end
